theory Spec2Isabelle
  imports Complex_Main
begin

section \<open>Python exceptions\<close>

text \<open>
  The script \<^verbatim>\<open>scripts/extract_volume.py\<close> has two functions, \<^verbatim>\<open>extract_volume\<close> and
  \<^verbatim>\<open>main\<close>. Both are embedded here as HOL functions over an explicit process state.

  An exception is a value. The handlers of the script tell three classes apart:
  \<^verbatim>\<open>ImportError\<close> (caught at lines 16 and 23), \<^verbatim>\<open>AttributeError\<close> (the one class that
  \<^verbatim>\<open>hasattr\<close> turns into \<^verbatim>\<open>False\<close>) and every other subclass of \<^verbatim>\<open>Exception\<close>. Each
  carries the text that \<^verbatim>\<open>str(e)\<close> returns. Exits that are not subclasses of
  \<^verbatim>\<open>Exception\<close> (\<^verbatim>\<open>KeyboardInterrupt\<close>, \<^verbatim>\<open>SystemExit\<close> raised by foreign code) are
  asynchronous or foreign to the pipeline and are not part of the model.
\<close>

datatype py_exn = ImportError string | AttributeError string | Exception string

fun str :: "py_exn \<Rightarrow> string" where
  "str (ImportError m) = m"
| "str (AttributeError m) = m"
| "str (Exception m) = m"

section \<open>Python floats\<close>

text \<open>
  A Python float is an IEEE 754 binary64 number: a finite value, an infinity or NaN. A
  finite value is kept as the real number it denotes (the two zeros are not told apart).
\<close>

datatype py_float = Finite real | PosInf | NegInf | NaN

text \<open>
  The smallest positive double (2 to the power -1074), the smallest normal double (2 to
  the power -1022), and 2 to the power 1024, from which on a rounded magnitude overflows.
\<close>

definition min_subnormal :: real where
  "min_subnormal = 2 powi (- 1074)"

definition min_normal :: real where
  "min_normal = 2 powi (- 1022)"

definition overflow_threshold :: real where
  "overflow_threshold = 2 ^ 1024"

text \<open>Rounding to the nearest integer, a tie going to the even one.\<close>

definition round_half_even :: "real \<Rightarrow> int" where
  "round_half_even q =
     (let f = \<lfloor>q\<rfloor>; d = q - of_int f in
      if d < 1 / 2 then f
      else if 1 / 2 < d then f + 1
      else if even f then f else f + 1)"

text \<open>
  The binary exponent of a real, not below that of the normal numbers, and the spacing of
  the doubles around it: 53 significant bits.
\<close>

definition expo :: "real \<Rightarrow> int" where
  "expo x = (if \<bar>x\<bar> < min_normal then - 1022 else \<lfloor>log 2 \<bar>x\<bar>\<rfloor>)"

definition ulp :: "real \<Rightarrow> real" where
  "ulp x = 2 powi (expo x - 52)"

text \<open>
  The double nearest to a real (round to nearest, ties to even), an infinity when the
  rounded magnitude reaches \<open>overflow_threshold\<close>. Every float operation of the script
  is the exact operation followed by this rounding.
\<close>

definition round_double :: "real \<Rightarrow> py_float" where
  "round_double x =
     (let y = of_int (round_half_even (x / ulp x)) * ulp x in
      if overflow_threshold \<le> \<bar>y\<bar> then (if 0 < x then PosInf else NegInf) else Finite y)"

text \<open>A float that the kernel hands over is a double when rounding leaves it as it is.\<close>

fun is_double :: "py_float \<Rightarrow> bool" where
  "is_double (Finite a) = (round_double a = Finite a)"
| "is_double x = True"

text \<open>\<^verbatim>\<open>x + y\<close> on floats.\<close>

fun fadd :: "py_float \<Rightarrow> py_float \<Rightarrow> py_float" where
  "fadd (Finite a) (Finite b) = round_double (a + b)"
| "fadd NaN y = NaN"
| "fadd x NaN = NaN"
| "fadd PosInf NegInf = NaN"
| "fadd NegInf PosInf = NaN"
| "fadd PosInf y = PosInf"
| "fadd x PosInf = PosInf"
| "fadd NegInf y = NegInf"
| "fadd x NegInf = NegInf"

text \<open>\<^verbatim>\<open>x / 1000.0\<close>, the one division of the script.\<close>

fun div_1000 :: "py_float \<Rightarrow> py_float" where
  "div_1000 (Finite a) = round_double (a / 1000)"
| "div_1000 x = x"

text \<open>The comparisons \<^verbatim>\<open>x > 0\<close> and \<^verbatim>\<open>x <= 0\<close>: false on NaN.\<close>

fun gt0 :: "py_float \<Rightarrow> bool" where
  "gt0 (Finite a) = (0 < a)"
| "gt0 PosInf = True"
| "gt0 x = False"

fun le0 :: "py_float \<Rightarrow> bool" where
  "le0 (Finite a) = (a \<le> 0)"
| "le0 NegInf = True"
| "le0 x = False"

section \<open>Python dictionaries and statement outcomes\<close>

text \<open>The values that occur in the dictionaries the script builds.\<close>

datatype py_value = PyFloat py_float | PyInt int | PyStr string | PyBool bool

text \<open>A dict literal, as the list of its items in insertion order.\<close>

type_synonym py_dict = "(string \<times> py_value) list"

text \<open>
  What running a block of statements inside a function body leads to: an exception is
  raised, a \<^verbatim>\<open>return\<close> statement is executed, or control reaches the next statement
  (with the variables the block has bound).
\<close>

datatype 'a outcome = Raise py_exn | Return py_dict | Next 'a

section \<open>The FreeCAD kernel and the process state\<close>

text \<open>
  Reading an attribute of a kernel object either yields a value or raises; a missing
  attribute raises \<^verbatim>\<open>AttributeError\<close>. A shape has the attribute \<^verbatim>\<open>Volume\<close>, an object of
  a document the attribute \<^verbatim>\<open>Shape\<close>, a document the attribute \<^verbatim>\<open>Name\<close>.
\<close>

record shape =
  Volume :: "py_exn + py_float"

record obj =
  Shape :: "py_exn + shape"

record document =
  Name :: string

text \<open>
  The kernel is an external library; its behaviour is a parameter.
  \<^item> \<open>import_module k m path\<close>: the statement \<^verbatim>\<open>import m\<close> under the module search path
    \<open>path\<close>; \<open>None\<close> when the module is loaded, \<open>Some e\<close> when the import raises \<open>e\<close>.
  \<^item> \<open>newDocument k label\<close>: \<^verbatim>\<open>FreeCAD.newDocument(label)\<close>.
  \<^item> \<open>Import_insert k file name\<close>: \<^verbatim>\<open>Import.insert(file, name)\<close>; when the call
    returns, the value is the list that \<^verbatim>\<open>doc.Objects\<close> holds afterwards.
  \<^item> \<open>closeDocument k name\<close>: \<^verbatim>\<open>FreeCAD.closeDocument(name)\<close>; \<open>None\<close> when the call
    returns, \<open>Some e\<close> when it raises \<open>e\<close>.
\<close>

record kernel =
  import_module :: "string \<Rightarrow> string list \<Rightarrow> py_exn option"
  newDocument :: "string \<Rightarrow> py_exn + document"
  Import_insert :: "string \<Rightarrow> string \<Rightarrow> py_exn + obj list"
  closeDocument :: "string \<Rightarrow> py_exn option"

text \<open>
  The calls into the kernel, in the order they happen. \<open>NewDocument n\<close> is recorded when
  \<^verbatim>\<open>FreeCAD.newDocument\<close> has returned a document named \<open>n\<close>, \<open>CloseDocument n\<close> when
  \<^verbatim>\<open>FreeCAD.closeDocument(n)\<close> is called.
\<close>

datatype event =
  ImportModule string
| NewDocument string
| Insert string string
| CloseDocument string

record state =
  sys_path :: "string list"
  trace :: "event list"

definition emit :: "event \<Rightarrow> state \<Rightarrow> state" where
  "emit e s = s\<lparr>trace := trace s @ [e]\<rparr>"

section \<open>extract_volume\<close>

text \<open>
  \<^verbatim>\<open>hasattr(o, name)\<close> reads the attribute: \<^verbatim>\<open>True\<close> when the read returns, \<^verbatim>\<open>False\<close> when
  it raises \<^verbatim>\<open>AttributeError\<close>; any other exception propagates (Python 3).
\<close>

fun hasattr :: "py_exn + 'a \<Rightarrow> py_exn + bool" where
  "hasattr (Inr v) = Inr True"
| "hasattr (Inl (AttributeError m)) = Inr False"
| "hasattr (Inl e) = Inl e"

text \<open>
  Lines 42 to 45, the body of the loop, on the pair \<open>(total_volume, object_count)\<close>.
  Reading an attribute has no effect, so the repeated reads of \<^verbatim>\<open>obj.Shape\<close> and
  \<^verbatim>\<open>obj.Shape.Volume\<close> have the outcome of the first. The addition is the float one.
\<close>

definition add_volume :: "obj \<Rightarrow> py_float \<times> int \<Rightarrow> py_exn + py_float \<times> int" where
  "add_volume ob acc =
     (case hasattr (Shape ob) of
        Inl e \<Rightarrow> Inl e
      | Inr False \<Rightarrow> Inr acc
      | Inr True \<Rightarrow>
          (case Shape ob of
             Inl e \<Rightarrow> Inl e
           | Inr sh \<Rightarrow>
               (case hasattr (Volume sh) of
                  Inl e \<Rightarrow> Inl e
                | Inr False \<Rightarrow> Inr acc
                | Inr True \<Rightarrow>
                    (case Volume sh of
                       Inl e \<Rightarrow> Inl e
                     | Inr v \<Rightarrow>
                         if gt0 v then Inr (fadd (fst acc) v, snd acc + 1) else Inr acc))))"

text \<open>Lines 41 to 45: the loop over \<^verbatim>\<open>doc.Objects\<close>; an exception ends it.\<close>

fun sum_volumes :: "obj list \<Rightarrow> py_float \<times> int \<Rightarrow> py_exn + py_float \<times> int" where
  "sum_volumes [] acc = Inr acc"
| "sum_volumes (ob # objs) acc =
     (case add_volume ob acc of
        Inl e \<Rightarrow> Inl e
      | Inr acc' \<Rightarrow> sum_volumes objs acc')"

text \<open>The dict literals of lines 24, 35, 51, 56 to 61 and 64.\<close>

definition error_result :: "string \<Rightarrow> py_dict" where
  "error_result m = [(''error'', PyStr m)]"

definition success_result :: "py_float \<Rightarrow> int \<Rightarrow> py_dict" where
  "success_result volume_cm3 object_count =
     [(''volume'', PyFloat volume_cm3),
      (''units'', PyStr ''cm3''),
      (''object_count'', PyInt object_count),
      (''success'', PyBool True)]"

text \<open>Lines 19 to 21: the three directories appended to \<^verbatim>\<open>sys.path\<close>.\<close>

definition freecad_paths :: "string list" where
  "freecad_paths =
     [''/usr/lib/freecad-python3/lib'',
      ''/usr/lib/freecad/lib'',
      ''/Applications/FreeCAD.app/Contents/lib'']"

text \<open>
  Lines 14 to 24: import FreeCAD, a second time with a longer search path when the first
  attempt raises \<^verbatim>\<open>ImportError\<close>.
\<close>

definition import_FreeCAD :: "kernel \<Rightarrow> state \<Rightarrow> unit outcome \<times> state" where
  "import_FreeCAD k s =
     (let s1 = emit (ImportModule ''FreeCAD'') s in
      case import_module k ''FreeCAD'' (sys_path s1) of
        None \<Rightarrow> (Next (), s1)
      | Some (ImportError m) \<Rightarrow>
          (let s2 = s1\<lparr>sys_path := sys_path s1 @ freecad_paths\<rparr>;
               s3 = emit (ImportModule ''FreeCAD'') s2 in
           case import_module k ''FreeCAD'' (sys_path s3) of
             None \<Rightarrow> (Next (), s3)
           | Some (ImportError m') \<Rightarrow>
               (Return (error_result ''FreeCAD not installed or not in PATH''), s3)
           | Some e \<Rightarrow> (Raise e, s3))
      | Some e \<Rightarrow> (Raise e, s1))"

text \<open>
  Lines 30 to 35: import the STEP file into the document. Every exception of the model is
  an \<^verbatim>\<open>Exception\<close>, so the handler of line 33 catches whatever the two statements raise.
  The handler calls \<^verbatim>\<open>FreeCAD.closeDocument\<close>; an exception of that call leaves the
  handler and reaches the handler of line 63.
\<close>

definition import_failed ::
  "kernel \<Rightarrow> document \<Rightarrow> py_exn \<Rightarrow> state \<Rightarrow> obj list outcome \<times> state" where
  "import_failed k doc e s =
     (let s1 = emit (CloseDocument (Name doc)) s in
      case closeDocument k (Name doc) of
        Some e' \<Rightarrow> (Raise e', s1)
      | None \<Rightarrow> (Return (error_result (''Failed to import STEP file: '' @ str e)), s1))"

definition import_step :: "kernel \<Rightarrow> string \<Rightarrow> document \<Rightarrow> state \<Rightarrow> obj list outcome \<times> state" where
  "import_step k step_file_path doc s =
     (let s1 = emit (ImportModule ''Import'') s in
      case import_module k ''Import'' (sys_path s1) of
        Some e \<Rightarrow> import_failed k doc e s1
      | None \<Rightarrow>
          (let s2 = emit (Insert step_file_path (Name doc)) s1 in
           case Import_insert k step_file_path (Name doc) of
             Inl e \<Rightarrow> import_failed k doc e s2
           | Inr objs \<Rightarrow> (Next objs, s2)))"

text \<open>
  Lines 13 to 35: up to the point where the file is in the document. \<open>Next (doc, objs)\<close>
  is the case in which line 37 is reached, with the document and its objects.
\<close>

definition load_document ::
  "kernel \<Rightarrow> string \<Rightarrow> state \<Rightarrow> (document \<times> obj list) outcome \<times> state" where
  "load_document k step_file_path s =
     (case import_FreeCAD k s of
        (Raise e, s1) \<Rightarrow> (Raise e, s1)
      | (Return d, s1) \<Rightarrow> (Return d, s1)
      | (Next u, s1) \<Rightarrow>
          (case newDocument k ''VolumeExtraction'' of
             Inl e \<Rightarrow> (Raise e, s1)
           | Inr doc \<Rightarrow>
               (let s2 = emit (NewDocument (Name doc)) s1 in
                case import_step k step_file_path doc s2 of
                  (Raise e, s3) \<Rightarrow> (Raise e, s3)
                | (Return d, s3) \<Rightarrow> (Return d, s3)
                | (Next objs, s3) \<Rightarrow> (Next (doc, objs), s3))))"

text \<open>
  Lines 37 to 61: sum the volumes from \<^verbatim>\<open>0.0\<close>, close the document (the call of line 48
  may raise), compare the total with 0 and build the result.
\<close>

definition report_volume ::
  "kernel \<Rightarrow> document \<Rightarrow> obj list \<Rightarrow> state \<Rightarrow> (py_exn + py_dict) \<times> state" where
  "report_volume k doc objs s =
     (case sum_volumes objs (Finite 0, 0) of
        Inl e \<Rightarrow> (Inl e, s)
      | Inr (total_volume, object_count) \<Rightarrow>
          (let s1 = emit (CloseDocument (Name doc)) s in
           case closeDocument k (Name doc) of
             Some e \<Rightarrow> (Inl e, s1)
           | None \<Rightarrow>
               if le0 total_volume
               then (Inr (error_result ''No valid solid objects found in STEP file''), s1)
               else (let volume_cm3 = div_1000 total_volume
                     in (Inr (success_result volume_cm3 object_count), s1))))"

text \<open>Lines 13 to 61: the body of the outer \<^verbatim>\<open>try\<close>.\<close>

definition extract_volume_try ::
  "kernel \<Rightarrow> string \<Rightarrow> state \<Rightarrow> (py_exn + py_dict) \<times> state" where
  "extract_volume_try k step_file_path s =
     (case load_document k step_file_path s of
        (Raise e, s1) \<Rightarrow> (Inl e, s1)
      | (Return d, s1) \<Rightarrow> (Inr d, s1)
      | (Next (doc, objs), s1) \<Rightarrow> report_volume k doc objs s1)"

text \<open>
  Lines 10 to 64. A call of a Python function returns a value (\<open>Inr\<close>) or raises
  (\<open>Inl\<close>); the handler of line 63 turns an exception of the body into a returned dict.
\<close>

definition extract_volume ::
  "kernel \<Rightarrow> string \<Rightarrow> state \<Rightarrow> (py_exn + py_dict) \<times> state" where
  "extract_volume k step_file_path s =
     (case extract_volume_try k step_file_path s of
        (Inl e, s1) \<Rightarrow> (Inr (error_result (''Volume extraction failed: '' @ str e)), s1)
      | (Inr d, s1) \<Rightarrow> (Inr d, s1))"

section \<open>main\<close>

text \<open>
  A line on standard output: a literal text, or \<^verbatim>\<open>json.dumps\<close> of a dict. The serialiser
  belongs to the standard library and stays symbolic.
\<close>

datatype line = Text string | Json_dumps py_dict

text \<open>The lines printed on standard output and the exit status of the process.\<close>

record process_exit =
  stdout :: "line list"
  exit_code :: int

text \<open>
  Lines 66 to 82, run as a script with \<^verbatim>\<open>sys.argv\<close> = \<open>argv\<close> (the program name first);
  \<^verbatim>\<open>os.path.exists\<close>, the file system, is a parameter. \<^verbatim>\<open>sys.exit(1)\<close> ends the process
  with status 1, reaching the end of \<^verbatim>\<open>main\<close> ends it with status 0, and an exception that
  escaped \<^verbatim>\<open>extract_volume\<close> would end it with status 1 and nothing on standard output.
\<close>

definition main ::
  "(string \<Rightarrow> bool) \<Rightarrow> kernel \<Rightarrow> string list \<Rightarrow> state \<Rightarrow> process_exit \<times> state" where
  \<open>main os_path_exists k argv s =
     (if length argv \<noteq> 2
      then (\<lparr>stdout = [Text ''{"error": "Usage: python3 extract_volume.py <step_file_path>"}''],
             exit_code = 1\<rparr>, s)
      else (let step_file_path = argv ! 1 in
            if \<not> os_path_exists step_file_path
            then (\<lparr>stdout = [Text ''{"error": "STEP file not found"}''], exit_code = 1\<rparr>, s)
            else (case extract_volume k step_file_path s of
                    (Inl e, s1) \<Rightarrow> (\<lparr>stdout = [], exit_code = 1\<rparr>, s1)
                  | (Inr result, s1) \<Rightarrow>
                      (\<lparr>stdout = [Json_dumps result], exit_code = 0\<rparr>, s1))))\<close>

section \<open>The words of the specification\<close>

text \<open>
  An object contributes when it has a shape whose volume is strictly positive; its
  contribution is that volume, in cubic millimetres.
\<close>

definition positive_volume :: "obj \<Rightarrow> py_float option" where
  "positive_volume ob =
     (case Shape ob of
        Inl e \<Rightarrow> None
      | Inr sh \<Rightarrow> (case Volume sh of Inl e \<Rightarrow> None | Inr v \<Rightarrow> if gt0 v then Some v else None))"

text \<open>The volumes \<open>V1, ..., Vn\<close> of the contributing objects of a document, in order.\<close>

definition solid_volumes :: "obj list \<Rightarrow> py_float list" where
  "solid_volumes objs = List.map_filter positive_volume objs"

text \<open>
  The objects the specification says are skipped: those lacking a shape, those whose
  shape lacks a volume property, and those with zero volume.
\<close>

definition lacks_shape :: "obj \<Rightarrow> bool" where
  "lacks_shape ob = (case Shape ob of Inl (AttributeError m) \<Rightarrow> True | _ \<Rightarrow> False)"

definition lacks_volume :: "obj \<Rightarrow> bool" where
  "lacks_volume ob =
     (case Shape ob of
        Inr sh \<Rightarrow> (case Volume sh of Inl (AttributeError m) \<Rightarrow> True | _ \<Rightarrow> False)
      | _ \<Rightarrow> False)"

definition zero_volume :: "obj \<Rightarrow> bool" where
  "zero_volume ob =
     (case Shape ob of
        Inr sh \<Rightarrow> (case Volume sh of Inr (Finite a) \<Rightarrow> a = 0 | _ \<Rightarrow> False)
      | _ \<Rightarrow> False)"

definition skipped :: "obj \<Rightarrow> bool" where
  "skipped ob = (lacks_shape ob \<or> lacks_volume ob \<or> zero_volume ob)"

text \<open>The volume an object reports, when it reports one, is a double.\<close>

definition volume_is_double :: "obj \<Rightarrow> bool" where
  "volume_is_double ob =
     (case Shape ob of
        Inr sh \<Rightarrow> (case Volume sh of Inr v \<Rightarrow> is_double v | _ \<Rightarrow> True)
      | _ \<Rightarrow> True)"

text \<open>
  The sum \<open>V1 + ... + Vn\<close> as the script computes it: float additions from \<^verbatim>\<open>0.0\<close>, in
  the order of the document.
\<close>

definition float_sum :: "py_float list \<Rightarrow> py_float" where
  "float_sum vs = foldl fadd (Finite 0) vs"

text \<open>A float that is not negative and not NaN; a float that is at least a given real.\<close>

fun ge0 :: "py_float \<Rightarrow> bool" where
  "ge0 (Finite a) = (0 \<le> a)"
| "ge0 PosInf = True"
| "ge0 x = False"

fun at_least :: "real \<Rightarrow> py_float \<Rightarrow> bool" where
  "at_least b (Finite a) = (b \<le> a)"
| "at_least b PosInf = True"
| "at_least b x = False"

text \<open>The events a call has added to the trace.\<close>

definition emitted :: "state \<Rightarrow> state \<Rightarrow> event list" where
  "emitted s s' = drop (length (trace s)) (trace s')"

section \<open>Example kernels\<close>

text \<open>
  A solid of a given volume, a datum plane (no \<^verbatim>\<open>Shape\<close> attribute), and an object whose
  shape is null, so that reading its \<^verbatim>\<open>Volume\<close> raises. \<open>solid 0\<close> is a surface.
\<close>

definition solid :: "real \<Rightarrow> obj" where
  "solid v = \<lparr>Shape = Inr \<lparr>Volume = Inr (Finite v)\<rparr>\<rparr>"

definition datum_plane :: obj where
  "datum_plane = \<lparr>Shape = Inl (AttributeError ''Shape'')\<rparr>"

definition null_shape :: obj where
  "null_shape = \<lparr>Shape = Inr \<lparr>Volume = Inl (Exception ''Null shape'')\<rparr>\<rparr>"

text \<open>
  A kernel that is installed, creates the document under the label it is given, imports
  every file as the same list of objects and closes every document.
\<close>

definition kernel_with :: "obj list \<Rightarrow> kernel" where
  "kernel_with objs =
     \<lparr>import_module = (\<lambda>m path. None),
      newDocument = (\<lambda>label. Inr \<lparr>Name = label\<rparr>),
      Import_insert = (\<lambda>file name. Inr objs),
      closeDocument = (\<lambda>name. None)\<rparr>"

text \<open>The same kernel, except that closing a document raises.\<close>

definition kernel_close_fails :: "obj list \<Rightarrow> kernel" where
  "kernel_close_fails objs =
     \<lparr>import_module = (\<lambda>m path. None),
      newDocument = (\<lambda>label. Inr \<lparr>Name = label\<rparr>),
      Import_insert = (\<lambda>file name. Inr objs),
      closeDocument = (\<lambda>name. Some (Exception ''close failed''))\<rparr>"

text \<open>
  The same kernel, except that its modules are found only when \<^verbatim>\<open>/usr/lib/freecad/lib\<close> is
  on the search path.
\<close>

definition kernel_in_lib :: "obj list \<Rightarrow> kernel" where
  "kernel_in_lib objs =
     \<lparr>import_module =
        (\<lambda>m path. if ''/usr/lib/freecad/lib'' \<in> set path then None
                   else Some (ImportError ''No module named FreeCAD'')),
      newDocument = (\<lambda>label. Inr \<lparr>Name = label\<rparr>),
      Import_insert = (\<lambda>file name. Inr objs),
      closeDocument = (\<lambda>name. None)\<rparr>"

text \<open>A process that has not yet touched the kernel, and one that has a history.\<close>

definition fresh :: state where
  "fresh = \<lparr>sys_path = [], trace = []\<rparr>"

definition used :: state where
  "used = \<lparr>sys_path = [], trace = [ImportModule ''FreeCAD'']\<rparr>"

text \<open>A file system on which exactly \<^verbatim>\<open>part.step\<close> exists.\<close>

definition only_part_step :: "string \<Rightarrow> bool" where
  "only_part_step p = (p = ''part.step'')"

section \<open>Rounding\<close>

text \<open>What the proofs below use of rounding to the nearest double.\<close>

lemma round_half_even_of_int [simp]: "round_half_even (of_int k) = k"
  by (simp add: round_half_even_def)

lemma round_half_even_close: "\<bar>of_int (round_half_even q) - q\<bar> \<le> 1 / 2"
  unfolding round_half_even_def Let_def by (auto; linarith)

lemma round_half_even_0 [simp]: "round_half_even 0 = 0"
  using round_half_even_of_int [of 0] by simp

lemma round_half_even_nonneg: "0 \<le> q \<Longrightarrow> 0 \<le> round_half_even q"
  by (auto simp: round_half_even_def Let_def)

lemma round_half_even_ge1: "1 \<le> q \<Longrightarrow> 1 \<le> round_half_even q"
proof -
  assume "1 \<le> q"
  then have "1 \<le> \<lfloor>q\<rfloor>" by (simp add: le_floor_iff)
  then show ?thesis by (auto simp: round_half_even_def Let_def)
qed

lemma min_subnormal_pos: "0 < min_subnormal"
  unfolding min_subnormal_def by (rule zero_less_power_int) simp

lemma overflow_threshold_pos: "0 < overflow_threshold"
  unfolding overflow_threshold_def by (rule zero_less_power) simp

lemma powr_powi: "(2::real) powr real_of_int e = 2 powi e"
  by (rule powr_real_of_int') simp_all

lemma floor_log_bounds:
  assumes "0 < x"
  shows "2 powi \<lfloor>log 2 x\<rfloor> \<le> x" and "x < 2 powi (\<lfloor>log 2 x\<rfloor> + 1)"
proof -
  let ?e = "\<lfloor>log 2 x\<rfloor>"
  from assms floor_log_eq_powr_iff [of x 2 ?e]
  have "(2::real) powr real_of_int ?e \<le> x" and "x < 2 powr (real_of_int ?e + 1)" by simp_all
  moreover have "real_of_int ?e + 1 = real_of_int (?e + 1)" by simp
  ultimately show "2 powi ?e \<le> x" and "x < 2 powi (?e + 1)"
    by (simp_all only: powr_powi)
qed

lemma expo_ge: "- 1022 \<le> expo x"
proof (cases "\<bar>x\<bar> < min_normal")
  case True
  then show ?thesis by (simp add: expo_def)
next
  case False
  then have x: "min_normal \<le> \<bar>x\<bar>" by simp
  have "0 < min_normal" unfolding min_normal_def by (rule zero_less_power_int) simp
  with x have pos: "0 < \<bar>x\<bar>" by linarith
  let ?e = "\<lfloor>log 2 \<bar>x\<bar>\<rfloor>"
  have "- 1022 \<le> ?e"
  proof (rule ccontr)
    assume "\<not> - 1022 \<le> ?e"
    then have "?e + 1 \<le> - 1022" by linarith
    then have "(2::real) powi (?e + 1) \<le> 2 powi (- 1022)"
      by (intro power_int_increasing) simp_all
    with floor_log_bounds(2) [OF pos] x show False unfolding min_normal_def by linarith
  qed
  with False show ?thesis by (simp add: expo_def)
qed

lemma ulp_pos: "0 < ulp x"
  unfolding ulp_def by (rule zero_less_power_int) simp

lemma ulp_ge: "min_subnormal \<le> ulp x"
  unfolding ulp_def min_subnormal_def using expo_ge [of x]
  by (intro power_int_increasing) simp_all

lemma ulp_subnormal: "\<bar>x\<bar> < min_normal \<Longrightarrow> ulp x = min_subnormal"
  by (simp add: ulp_def expo_def min_subnormal_def)

lemma ulp_le:
  assumes "min_subnormal \<le> x"
  shows "ulp x \<le> x"
proof (cases "\<bar>x\<bar> < min_normal")
  case True
  with assms show ?thesis by (simp only: ulp_subnormal)
next
  case False
  from assms min_subnormal_pos have pos: "0 < x" by linarith
  let ?e = "\<lfloor>log 2 \<bar>x\<bar>\<rfloor>"
  from pos floor_log_bounds(1) [of "\<bar>x\<bar>"] have e: "2 powi ?e \<le> x" by simp
  have "(2::real) powi (?e - 52) \<le> 2 powi ?e" by (intro power_int_increasing) simp_all
  with e False show ?thesis by (simp add: ulp_def expo_def)
qed

lemma round_double_nonneg: "0 \<le> x \<Longrightarrow> ge0 (round_double x)"
proof -
  assume x: "0 \<le> x"
  let ?y = "of_int (round_half_even (x / ulp x)) * ulp x"
  from x have "0 \<le> x / ulp x" using ulp_pos [of x] by simp
  then have "0 \<le> round_half_even (x / ulp x)" by (rule round_half_even_nonneg)
  then have y: "0 \<le> ?y" using ulp_pos [of x] by simp
  show ?thesis
  proof (cases "overflow_threshold \<le> \<bar>?y\<bar>")
    case False
    with y show ?thesis by (simp add: round_double_def Let_def)
  next
    case True
    with overflow_threshold_pos have "?y \<noteq> 0" by linarith
    then have "x \<noteq> 0" by auto
    with x True show ?thesis by (simp add: round_double_def Let_def)
  qed
qed

lemma round_double_pos:
  assumes "min_subnormal \<le> x"
  shows "gt0 (round_double x)"
proof -
  from assms min_subnormal_pos have pos: "0 < x" by linarith
  from ulp_le [OF assms] ulp_pos [of x] have "1 \<le> x / ulp x" by simp
  then have "1 \<le> round_half_even (x / ulp x)" by (rule round_half_even_ge1)
  then have "0 < of_int (round_half_even (x / ulp x)) * ulp x"
    using ulp_pos [of x] by simp
  with pos show ?thesis by (simp add: round_double_def Let_def)
qed

lemma round_double_Finite_pos:
  assumes "round_double x = Finite y" and "0 < y"
  shows "min_subnormal \<le> y"
proof -
  let ?m = "round_half_even (x / ulp x)"
  from assms(1) have y: "y = of_int ?m * ulp x"
    by (simp add: round_double_def Let_def split: if_splits)
  with assms(2) ulp_pos [of x] have "0 < ?m" by (simp add: zero_less_mult_iff)
  then have "1 \<le> (of_int ?m :: real)" by simp
  then have "1 * ulp x \<le> of_int ?m * ulp x" using ulp_pos [of x]
    by (intro mult_right_mono) simp_all
  with ulp_ge [of x] y show ?thesis by simp
qed

lemma fadd_pos:
  assumes "ge0 t" and "gt0 v" and "is_double v"
  shows "gt0 (fadd t v)"
proof (cases v)
  case (Finite b)
  with assms have b: "min_subnormal \<le> b" by (auto intro: round_double_Finite_pos)
  show ?thesis
  proof (cases t)
    case (Finite a)
    with assms(1) b have "min_subnormal \<le> a + b" by simp
    with Finite \<open>v = Finite b\<close> show ?thesis by (simp add: round_double_pos)
  qed (use assms Finite in simp_all)
qed (use assms in \<open>cases t; simp_all\<close>)+

lemma fadd_nonneg:
  assumes "ge0 t" and "gt0 v"
  shows "ge0 (fadd t v)"
  using assms by (cases t; cases v) (simp_all add: round_double_nonneg)

lemma gt0_ge0: "gt0 x \<Longrightarrow> ge0 x"
  by (cases x) simp_all

lemma gt0_not_le0: "gt0 x \<Longrightarrow> \<not> le0 x"
  by (cases x) simp_all

lemma div_1000_nonneg: "ge0 x \<Longrightarrow> ge0 (div_1000 x)"
  by (cases x) (simp_all add: round_double_nonneg)


lemma round_double_0 [simp]: "round_double 0 = Finite 0"
  using overflow_threshold_pos by (simp add: round_double_def)

lemma ulp_normal:
  assumes "2 powi e \<le> \<bar>x\<bar>" and "\<bar>x\<bar> < 2 powi (e + 1)" and "- 1022 \<le> e"
  shows "ulp x = 2 powi (e - 52)"
proof -
  from assms(3) have "(2::real) powi (- 1022) \<le> 2 powi e"
    by (intro power_int_increasing) simp_all
  with assms(1) have normal: "\<not> \<bar>x\<bar> < min_normal" unfolding min_normal_def by linarith
  have "(0::real) < 2 powi e" by (rule zero_less_power_int) simp
  with assms(1) have pos: "0 < \<bar>x\<bar>" by linarith
  have "real_of_int e + 1 = real_of_int (e + 1)" by simp
  with assms(1,2) have "(2::real) powr real_of_int e \<le> \<bar>x\<bar> \<and> \<bar>x\<bar> < 2 powr (real_of_int e + 1)"
    by (simp only: powr_powi)
  with pos have "\<lfloor>log 2 \<bar>x\<bar>\<rfloor> = e" by (simp only: floor_log_eq_powr_iff [of "\<bar>x\<bar>" 2 e, simplified])
  with normal show ?thesis by (simp add: ulp_def expo_def)
qed

text \<open>Every integer of magnitude below 2 to the power 53 is a double.\<close>

lemma round_double_of_int:
  assumes "\<bar>k\<bar> < 2 ^ 53"
  shows "round_double (of_int k) = Finite (of_int k)"
proof (cases "k = 0")
  case True
  then show ?thesis by simp
next
  case False
  let ?x = "real_of_int k"
  let ?e = "\<lfloor>log 2 \<bar>?x\<bar>\<rfloor>"
  from False have one: "1 \<le> \<bar>?x\<bar>" by (simp flip: of_int_abs)
  then have pos: "0 < \<bar>?x\<bar>" by linarith
  note b = floor_log_bounds [OF pos]
  have lo: "0 \<le> ?e"
  proof (rule ccontr)
    assume "\<not> 0 \<le> ?e"
    then have "?e + 1 \<le> 0" by linarith
    then have "(2::real) powi (?e + 1) \<le> 2 powi 0" by (intro power_int_increasing) simp_all
    with b(2) one show False by simp
  qed
  have hi: "?e \<le> 52"
  proof (rule ccontr)
    assume "\<not> ?e \<le> 52"
    then have "53 \<le> ?e" by linarith
    then have "(2::real) powi 53 \<le> 2 powi ?e" by (intro power_int_increasing) simp_all
    with b(1) have "2 ^ 53 \<le> \<bar>?x\<bar>" by simp
    then have "real_of_int (2 ^ 53) \<le> real_of_int \<bar>k\<bar>" by simp
    then have "2 ^ 53 \<le> \<bar>k\<bar>" by (simp only: of_int_le_iff)
    with assms show False by simp
  qed
  from lo have "- 1022 \<le> ?e" by simp
  from ulp_normal [OF b(1) b(2) this] have u: "ulp ?x = 2 powi (?e - 52)" .
  define n where "n = nat (52 - ?e)"
  with hi have "?e - 52 = - int n" by simp
  then have "ulp ?x = 1 / 2 ^ n" by (simp add: u power_int_minus_divide)
  then have q: "?x / ulp ?x = of_int (k * 2 ^ n)" and u': "ulp ?x = 1 / 2 ^ n" by simp_all
  have y: "of_int (round_half_even (?x / ulp ?x)) * ulp ?x = ?x"
    by (simp only: q round_half_even_of_int) (simp add: u')
  from assms have "real_of_int \<bar>k\<bar> < real_of_int (2 ^ 53)" by (simp only: of_int_less_iff)
  then have "\<bar>?x\<bar> < 2 ^ 53" by simp
  also have "(2::real) ^ 53 \<le> 2 ^ 1024" by (rule power_increasing) simp_all
  finally have "\<not> overflow_threshold \<le> \<bar>?x\<bar>" by (simp add: overflow_threshold_def)
  with y show ?thesis by (simp add: round_double_def Let_def)
qed

lemma round_double_numeral [simp]:
  "(numeral k :: int) < 2 ^ 53 \<Longrightarrow> round_double (numeral k) = Finite (numeral k)"
  using round_double_of_int [of "numeral k"] by simp

lemma round_double_1 [simp]: "round_double 1 = Finite 1"
  using round_double_of_int [of 1] by simp

text \<open>Below the smallest normal double the spacing is the smallest double.\<close>

lemma round_double_subnormal:
  assumes "\<bar>x\<bar> < min_normal"
  shows "round_double x = Finite (of_int (round_half_even (x / min_subnormal)) * min_subnormal)"
proof -
  let ?m = "round_half_even (x / min_subnormal)"
  let ?y = "of_int ?m * min_subnormal"
  have "(2::real) powi (- 1074) \<le> 2 powi 0" and "(2::real) powi (- 1022) \<le> 2 powi 0"
    by (intro power_int_increasing; simp)+
  then have s1: "min_subnormal \<le> 1" and n1: "min_normal \<le> 1"
    by (simp_all add: min_subnormal_def min_normal_def)
  have "(2::real) ^ 2 \<le> 2 ^ 1024" by (rule power_increasing) simp_all
  then have big: "4 \<le> overflow_threshold" by (simp add: overflow_threshold_def)
  from round_half_even_close [of "x / min_subnormal"]
  have "\<bar>of_int ?m - x / min_subnormal\<bar> * min_subnormal \<le> 1 / 2 * min_subnormal"
    using min_subnormal_pos by (intro mult_right_mono) simp_all
  moreover have "(of_int ?m - x / min_subnormal) * min_subnormal = ?y - x"
    using min_subnormal_pos by (simp add: left_diff_distrib)
  moreover have "\<bar>(of_int ?m - x / min_subnormal) * min_subnormal\<bar>
                   = \<bar>of_int ?m - x / min_subnormal\<bar> * min_subnormal"
    using min_subnormal_pos by (simp add: abs_mult)
  ultimately have "\<bar>?y - x\<bar> \<le> 1 / 2 * min_subnormal" by simp
  with assms s1 n1 have "\<bar>?y\<bar> < 4" by linarith
  with big have "\<not> overflow_threshold \<le> \<bar>?y\<bar>" by linarith
  then show ?thesis by (simp add: round_double_def Let_def ulp_subnormal [OF assms])
qed

lemma min_subnormal_lt_normal: "min_subnormal < min_normal"
  unfolding min_subnormal_def min_normal_def by (rule power_int_strict_increasing) simp_all

lemma round_double_min_subnormal: "round_double min_subnormal = Finite min_subnormal"
proof -
  have "\<bar>min_subnormal\<bar> < min_normal"
    using min_subnormal_pos min_subnormal_lt_normal by simp
  from round_double_subnormal [OF this] min_subnormal_pos show ?thesis
    using round_half_even_of_int [of 1] by simp
qed

lemma round_double_underflow: "round_double (min_subnormal / 1000) = Finite 0"
proof -
  have "\<bar>min_subnormal / 1000\<bar> < min_normal"
    using min_subnormal_pos min_subnormal_lt_normal by simp
  moreover have "round_half_even (1 / 1000) = 0" by (simp add: round_half_even_def)
  ultimately show ?thesis
    using round_double_subnormal [of "min_subnormal / 1000"] min_subnormal_pos by simp
qed



lemma not_overflow: "\<bar>y\<bar> < 2 ^ 54 \<Longrightarrow> \<not> overflow_threshold \<le> \<bar>y\<bar>"
proof -
  assume "\<bar>y\<bar> < 2 ^ 54"
  also have "(2::real) ^ 54 \<le> 2 ^ 1024" by (rule power_increasing) simp_all
  finally show ?thesis by (simp add: overflow_threshold_def)
qed

lemma round_double_2_53: "round_double 9007199254740992 = Finite 9007199254740992"
proof -
  have "ulp 9007199254740992 = 2 powi (53 - 52)"
    by (rule ulp_normal) simp_all
  then have u: "ulp 9007199254740992 = 2" by simp
  have m: "round_half_even (9007199254740992 / 2) = 4503599627370496"
    using round_half_even_of_int [of 4503599627370496] by simp
  show ?thesis
    unfolding round_double_def Let_def u m using not_overflow [of 9007199254740992] by simp
qed

lemma round_double_absorb: "round_double 9007199254740993 = Finite 9007199254740992"
proof -
  have "ulp 9007199254740993 = 2 powi (53 - 52)"
    by (rule ulp_normal) simp_all
  then have u: "ulp 9007199254740993 = 2" by simp
  have m: "round_half_even (9007199254740993 / 2) = 4503599627370496"
    by (simp add: round_half_even_def)
  show ?thesis
    unfolding round_double_def Let_def u m using not_overflow [of 9007199254740992] by simp
qed

lemma round_double_quotient: "round_double (1125899906842624 / 125) = Finite (1152921504606847 / 128)"
proof -
  have "ulp (1125899906842624 / 125) = 2 powi (43 - 52)"
    by (rule ulp_normal) simp_all
  then have u: "ulp (1125899906842624 / 125) = 1 / 512" by simp
  have m: "round_half_even (1125899906842624 / 125 / (1 / 512)) = 4611686018427388"
    by (simp add: round_half_even_def)
  show ?thesis
    unfolding round_double_def Let_def u m using not_overflow [of "1152921504606847 / 128"] by simp
qed

text \<open>The smallest double is positive; a total that is large enough has a positive quotient.\<close>

lemma min_subnormal_not_le: "\<not> min_subnormal \<le> 0"
  using min_subnormal_pos by simp

lemma div_1000_pos: "at_least (1000 * min_subnormal) tot \<Longrightarrow> gt0 (div_1000 tot)"
  by (cases tot) (simp_all add: round_double_pos)

lemma ge0_not_le0: "ge0 x \<Longrightarrow> \<not> le0 x \<Longrightarrow> gt0 x"
  by (cases x) auto

section \<open>The loop\<close>

lemma hasattr_True: "hasattr a = Inr True \<longleftrightarrow> (\<exists>v. a = Inr v)"
  by (cases a rule: hasattr.cases) auto

lemma hasattr_False: "hasattr a = Inr False \<longleftrightarrow> (\<exists>m. a = Inl (AttributeError m))"
  by (cases a rule: hasattr.cases) auto

text \<open>When the body of the loop does not raise, it adds exactly a positive volume.\<close>

lemma add_volume_Inr:
  assumes "add_volume ob acc = Inr acc'"
  shows "acc' = (case positive_volume ob of
                   None \<Rightarrow> acc
                 | Some v \<Rightarrow> (fadd (fst acc) v, snd acc + 1))"
  using assms
  by (auto simp: add_volume_def positive_volume_def hasattr_True hasattr_False
           split: sum.splits bool.splits if_splits)

lemma sum_volumes_Inr:
  "sum_volumes objs acc = Inr acc' \<Longrightarrow>
     fst acc' = foldl fadd (fst acc) (solid_volumes objs) \<and>
     snd acc' = snd acc + int (length (solid_volumes objs))"
proof (induction objs arbitrary: acc)
  case Nil
  then show ?case by (simp add: solid_volumes_def)
next
  case (Cons ob objs)
  from Cons.prems obtain acc1 where
    step: "add_volume ob acc = Inr acc1" and rest: "sum_volumes objs acc1 = Inr acc'"
    by (auto split: sum.splits)
  from add_volume_Inr [OF step] Cons.IH [OF rest]
  show ?case
    by (cases "positive_volume ob") (auto simp: solid_volumes_def)
qed

lemma solid_volumes_Cons:
  "solid_volumes (ob # objs) =
     (case positive_volume ob of None \<Rightarrow> solid_volumes objs | Some v \<Rightarrow> v # solid_volumes objs)"
  by (simp add: solid_volumes_def split: option.splits)

lemma positive_volume_gt0: "positive_volume ob = Some v \<Longrightarrow> gt0 v"
  by (auto simp: positive_volume_def split: sum.splits if_splits)

lemma positive_volume_double:
  "volume_is_double ob \<Longrightarrow> positive_volume ob = Some v \<Longrightarrow> is_double v"
  by (auto simp: positive_volume_def volume_is_double_def split: sum.splits if_splits)

lemma solid_volumes_gt0: "v \<in> set (solid_volumes objs) \<Longrightarrow> gt0 v"
  by (induction objs)
     (auto simp: solid_volumes_Cons positive_volume_gt0 split: option.splits simp: solid_volumes_def)

lemma solid_volumes_double:
  "\<forall>ob\<in>set objs. volume_is_double ob \<Longrightarrow> v \<in> set (solid_volumes objs) \<Longrightarrow> is_double v"
  by (induction objs)
     (auto simp: solid_volumes_Cons solid_volumes_def positive_volume_double split: option.splits)

lemma solid_volumes_empty_iff:
  "solid_volumes objs = [] \<longleftrightarrow> (\<forall>ob\<in>set objs. positive_volume ob = None)"
  by (induction objs) (auto simp: solid_volumes_def split: option.splits)

text \<open>The running total is never negative and never NaN.\<close>

lemma foldl_fadd_ge0: "ge0 t \<Longrightarrow> \<forall>v\<in>set vs. gt0 v \<Longrightarrow> ge0 (foldl fadd t vs)"
  by (induction vs arbitrary: t) (simp_all add: fadd_nonneg)

text \<open>Adding a positive double to it makes it positive, and it stays positive.\<close>

lemma foldl_fadd_gt0:
  "ge0 t \<Longrightarrow> \<forall>v\<in>set vs. gt0 v \<and> is_double v \<Longrightarrow> vs \<noteq> [] \<Longrightarrow> gt0 (foldl fadd t vs)"
proof (induction vs arbitrary: t)
  case Nil
  then show ?case by simp
next
  case (Cons v vs)
  then have first: "gt0 (fadd t v)" by (simp add: fadd_pos)
  show ?case
  proof (cases "vs = []")
    case True
    with first show ?thesis by simp
  next
    case False
    from first have "ge0 (fadd t v)" by (rule gt0_ge0)
    with Cons False show ?thesis by simp
  qed
qed

lemma ge0_cases: "ge0 x \<Longrightarrow> gt0 x \<or> x = Finite 0"
  by (cases x) auto

text \<open>The objects the specification lists never make the loop raise.\<close>

lemma add_volume_skipped: "skipped ob \<Longrightarrow> add_volume ob acc = Inr acc"
  by (auto simp: skipped_def lacks_shape_def lacks_volume_def zero_volume_def add_volume_def
           split: sum.splits py_exn.splits py_float.splits)

lemma add_volume_positive:
  "positive_volume ob = Some v \<Longrightarrow> add_volume ob acc = Inr (fadd (fst acc) v, snd acc + 1)"
  by (auto simp: positive_volume_def add_volume_def split: sum.splits if_splits)

lemma sum_volumes_no_raise:
  "\<forall>ob\<in>set objs. positive_volume ob \<noteq> None \<or> skipped ob \<Longrightarrow>
     \<exists>acc'. sum_volumes objs acc = Inr acc'"
proof (induction objs arbitrary: acc)
  case Nil
  then show ?case by simp
next
  case (Cons ob objs)
  from Cons.prems have "positive_volume ob \<noteq> None \<or> skipped ob" by simp
  then obtain acc1 where "add_volume ob acc = Inr acc1"
    using add_volume_skipped add_volume_positive by blast
  with Cons show ?case by simp
qed

text \<open>The total and the count at the end of a loop that started from \<^verbatim>\<open>0.0\<close> and 0.\<close>

lemma loop_result:
  assumes "sum_volumes objs (Finite 0, 0) = Inr (tot, n)"
  shows "tot = float_sum (solid_volumes objs)" and "n = int (length (solid_volumes objs))"
    and "ge0 tot" and "n = 0 \<Longrightarrow> tot = Finite 0" and "gt0 tot \<Longrightarrow> 1 \<le> n"
proof -
  from sum_volumes_Inr [OF assms]
  show tot: "tot = float_sum (solid_volumes objs)"
    and n: "n = int (length (solid_volumes objs))"
    by (simp_all add: float_sum_def)
  show "ge0 tot" unfolding tot float_sum_def
    by (rule foldl_fadd_ge0) (simp_all add: solid_volumes_gt0)
  show "tot = Finite 0" if "n = 0" using that n tot by (simp add: float_sum_def)
  show "1 \<le> n" if "gt0 tot"
  proof (cases "solid_volumes objs")
    case Nil
    with tot that show ?thesis by (simp add: float_sum_def)
  next
    case (Cons v vs)
    with n show ?thesis by simp
  qed
qed

lemma loop_total_positive:
  assumes "sum_volumes objs (Finite 0, 0) = Inr (tot, n)"
    and "\<forall>ob\<in>set objs. volume_is_double ob"
    and "solid_volumes objs \<noteq> []"
  shows "gt0 tot"
  unfolding loop_result(1) [OF assms(1)] float_sum_def
  using assms(2,3) by (intro foldl_fadd_gt0) (auto simp: solid_volumes_gt0 solid_volumes_double)

section \<open>The shape of a run\<close>

text \<open>Every \<^verbatim>\<open>return\<close> before line 37 returns an error dict.\<close>

lemma load_document_Return:
  "load_document k p s = (Return d, s1) \<Longrightarrow> \<exists>m. d = error_result m"
  by (auto simp: load_document_def import_FreeCAD_def import_step_def import_failed_def Let_def
           split: option.splits py_exn.splits sum.splits outcome.splits prod.splits)

lemma report_volume_Inr:
  assumes "sum_volumes objs (Finite 0, 0) = Inr (tot, n)" and "closeDocument k (Name doc) = None"
  shows "fst (report_volume k doc objs s) =
           Inr (if le0 tot then error_result ''No valid solid objects found in STEP file''
                else success_result (div_1000 tot) n)"
  using assms by (simp add: report_volume_def Let_def)

lemma extract_volume_Next:
  assumes "load_document k p s = (Next (doc, objs), s1)"
  shows "extract_volume k p s =
           (case report_volume k doc objs s1 of
              (Inl e, s2) \<Rightarrow> (Inr (error_result (''Volume extraction failed: '' @ str e)), s2)
            | (Inr d, s2) \<Rightarrow> (Inr d, s2))"
  using assms by (simp add: extract_volume_def extract_volume_try_def)

text \<open>
  A call returns an error dict, or the document was imported, the loop ended with a total
  that is not \<^verbatim>\<open><= 0\<close>, the document was closed and the call returns the success dict of
  that total.
\<close>

lemma extract_volume_cases:
  obtains m s1 where "extract_volume k p s = (Inr (error_result m), s1)"
  | doc objs s1 tot n s2 where "load_document k p s = (Next (doc, objs), s1)"
      "sum_volumes objs (Finite 0, 0) = Inr (tot, n)" "closeDocument k (Name doc) = None"
      "\<not> le0 tot"
      "extract_volume k p s = (Inr (success_result (div_1000 tot) n), s2)"
proof (cases "load_document k p s")
  case (Pair out s1)
  show ?thesis
  proof (cases out)
    case (Raise e)
    with Pair have "extract_volume k p s = (Inr (error_result (''Volume extraction failed: '' @ str e)), s1)"
      by (simp add: extract_volume_def extract_volume_try_def)
    then show ?thesis by (rule that(1))
  next
    case (Return d)
    with Pair load_document_Return obtain m where "d = error_result m" by blast
    with Pair Return have "extract_volume k p s = (Inr (error_result m), s1)"
      by (simp add: extract_volume_def extract_volume_try_def)
    then show ?thesis by (rule that(1))
  next
    case (Next x)
    obtain doc objs where x: "x = (doc, objs)" by (cases x)
    show ?thesis
    proof (cases "sum_volumes objs (Finite 0, 0)")
      case (Inl e)
      with Pair Next x have "extract_volume k p s = (Inr (error_result (''Volume extraction failed: '' @ str e)), s1)"
        by (simp add: extract_volume_def extract_volume_try_def report_volume_def)
      then show ?thesis by (rule that(1))
    next
      case (Inr acc)
      obtain tot n where acc: "acc = (tot, n)" by (cases acc)
      let ?s2 = "emit (CloseDocument (Name doc)) s1"
      show ?thesis
      proof (cases "closeDocument k (Name doc)")
        case (Some e)
        with Pair Next x Inr acc
        have "extract_volume k p s = (Inr (error_result (''Volume extraction failed: '' @ str e)), ?s2)"
          by (simp add: extract_volume_def extract_volume_try_def report_volume_def Let_def)
        then show ?thesis by (rule that(1))
      next
        case None
        show ?thesis
        proof (cases "le0 tot")
          case True
          with Pair Next x Inr acc None
          have "extract_volume k p s =
                  (Inr (error_result ''No valid solid objects found in STEP file''), ?s2)"
            by (simp add: extract_volume_def extract_volume_try_def report_volume_def Let_def)
          then show ?thesis by (rule that(1))
        next
          case False
          with Pair Next x Inr acc None
          have "extract_volume k p s = (Inr (success_result (div_1000 tot) n), ?s2)"
            by (simp add: extract_volume_def extract_volume_try_def report_volume_def Let_def)
          with Pair Next x Inr acc None False show ?thesis by (intro that(2)) auto
        qed
      qed
    qed
  qed
qed

text \<open>The definitions a run on a concrete kernel unfolds.\<close>

lemmas run_defs =
  extract_volume_def extract_volume_try_def load_document_def import_FreeCAD_def
  import_step_def import_failed_def report_volume_def add_volume_def emit_def Let_def
  kernel_with_def kernel_close_fails_def kernel_in_lib_def fresh_def used_def
  solid_def datum_plane_def null_shape_def

section \<open>Release of the document scope\<close>

text \<open>
  The events of a call extend the trace. For a document that \<^verbatim>\<open>FreeCAD.newDocument\<close>
  returned, \<^verbatim>\<open>FreeCAD.closeDocument\<close> is called on every path but one: the path on which the
  loop of lines 41 to 45 raises.
\<close>

lemma import_FreeCAD_trace:
  "\<exists>evs. trace (snd (import_FreeCAD k s)) = trace s @ evs \<and> set evs \<subseteq> {ImportModule ''FreeCAD''}"
  by (auto simp: import_FreeCAD_def emit_def Let_def split: option.splits py_exn.splits)

lemma import_step_trace:
  assumes "import_step k p doc s = (out, s1)"
  shows "\<exists>evs. trace s1 = trace s @ evs \<and> (\<forall>n. NewDocument n \<notin> set evs) \<and>
           ((\<exists>objs. out = Next objs) \<or> CloseDocument (Name doc) \<in> set evs)"
  using assms
  by (auto simp: import_step_def import_failed_def emit_def Let_def split: option.splits sum.splits)

lemma load_document_trace:
  assumes "load_document k p s = (out, s1)"
  shows "\<exists>evs. trace s1 = trace s @ evs \<and>
           (\<forall>n. NewDocument n \<in> set evs \<longrightarrow>
                  CloseDocument n \<in> set evs \<or> (\<exists>doc objs. out = Next (doc, objs) \<and> Name doc = n))"
proof -
  obtain o1 t1 where r1: "import_FreeCAD k s = (o1, t1)" by (cases "import_FreeCAD k s")
  with import_FreeCAD_trace [of k s] obtain evs1
    where t1: "trace t1 = trace s @ evs1" and e1: "set evs1 \<subseteq> {ImportModule ''FreeCAD''}" by auto
  show ?thesis
  proof (cases "\<exists>doc. o1 = Next () \<and> newDocument k ''VolumeExtraction'' = Inr doc")
    case False
    with assms r1 have "s1 = t1"
      by (auto simp: load_document_def split: outcome.splits sum.splits)
    with t1 e1 show ?thesis by auto
  next
    case True
    then obtain doc where o1: "o1 = Next ()" and doc: "newDocument k ''VolumeExtraction'' = Inr doc"
      by blast
    obtain o2 t2 where r2: "import_step k p doc (emit (NewDocument (Name doc)) t1) = (o2, t2)"
      by (cases "import_step k p doc (emit (NewDocument (Name doc)) t1)")
    from import_step_trace [OF r2] obtain evs2
      where t2: "trace t2 = trace s @ (evs1 @ [NewDocument (Name doc)] @ evs2)"
        and e2: "\<forall>n. NewDocument n \<notin> set evs2"
        and c2: "(\<exists>objs. o2 = Next objs) \<or> CloseDocument (Name doc) \<in> set evs2"
      by (auto simp: emit_def t1)
    from assms(1) r1 o1 doc r2 have s1: "s1 = t2"
      by (auto simp: load_document_def Let_def split: outcome.splits)
    from assms(1) r1 o1 doc r2 have out: "o2 = Next objs \<Longrightarrow> out = Next (doc, objs)" for objs
      by (auto simp: load_document_def Let_def split: outcome.splits)
    have "CloseDocument n \<in> set (evs1 @ [NewDocument (Name doc)] @ evs2)
            \<or> (\<exists>d objs. out = Next (d, objs) \<and> Name d = n)"
      if "NewDocument n \<in> set (evs1 @ [NewDocument (Name doc)] @ evs2)" for n
    proof -
      from that e1 e2 have "n = Name doc" by auto
      with c2 out show ?thesis by auto
    qed
    with t2 s1 show ?thesis by blast
  qed
qed

lemma extract_volume_trace:
  assumes "extract_volume k p s = (r, s')"
  shows "\<exists>evs. trace s' = trace s @ evs \<and>
           (\<forall>n. NewDocument n \<in> set evs \<longrightarrow>
                  CloseDocument n \<in> set evs \<or>
                  (\<exists>doc objs s1 e. load_document k p s = (Next (doc, objs), s1) \<and>
                                    sum_volumes objs (Finite 0, 0) = Inl e))"
proof -
  obtain out s1 where ld: "load_document k p s = (out, s1)" by (cases "load_document k p s")
  from load_document_trace [OF ld] obtain evs where
    s1: "trace s1 = trace s @ evs" and
    cl: "\<And>n. NewDocument n \<in> set evs \<Longrightarrow>
           CloseDocument n \<in> set evs \<or> (\<exists>doc objs. out = Next (doc, objs) \<and> Name doc = n)"
    by blast
  show ?thesis
  proof (cases "\<exists>doc objs. out = Next (doc, objs)")
    case False
    with ld assms(1) have "s' = s1"
      by (cases out) (auto simp: extract_volume_def extract_volume_try_def)
    with s1 cl False show ?thesis by blast
  next
    case True
    then obtain doc objs where out: "out = Next (doc, objs)" by blast
    show ?thesis
    proof (cases "sum_volumes objs (Finite 0, 0)")
      case (Inl e)
      with ld out assms(1) have "s' = s1"
        by (auto simp: extract_volume_def extract_volume_try_def report_volume_def)
      with s1 ld out Inl show ?thesis by blast
    next
      case (Inr acc)
      with ld out assms(1) have "s' = emit (CloseDocument (Name doc)) s1"
        by (cases acc)
           (auto simp: extract_volume_def extract_volume_try_def report_volume_def Let_def
                 split: if_splits option.splits)
      then have s': "trace s' = trace s @ (evs @ [CloseDocument (Name doc)])"
        by (simp add: emit_def s1)
      have "CloseDocument n \<in> set (evs @ [CloseDocument (Name doc)])"
        if "NewDocument n \<in> set (evs @ [CloseDocument (Name doc)])" for n
        using that cl [of n] out by auto
      with s' show ?thesis by blast
    qed
  qed
qed

text \<open>
  So the success path, the import-failure path and the no-solid-geometry path call
  \<^verbatim>\<open>FreeCAD.closeDocument\<close>; only an exception of the loop leaves the document without
  that call.
\<close>

lemma document_closed_unless_loop_raises:
  assumes "extract_volume k p s = (r, s')" and "NewDocument n \<in> set (emitted s s')"
  shows "CloseDocument n \<in> set (emitted s s') \<or>
         (\<exists>doc objs s1 e. load_document k p s = (Next (doc, objs), s1) \<and>
                           sum_volumes objs (Finite 0, 0) = Inl e)"
proof -
  from extract_volume_trace [OF assms(1)] obtain evs where
    "trace s' = trace s @ evs" and
    "\<And>n. NewDocument n \<in> set evs \<Longrightarrow> CloseDocument n \<in> set evs \<or>
            (\<exists>doc objs s1 e. load_document k p s = (Next (doc, objs), s1) \<and>
                              sum_volumes objs (Finite 0, 0) = Inl e)"
    by blast
  with assms(2) show ?thesis by (simp add: emitted_def)
qed

text \<open>
  C1. The claim: whenever \<^verbatim>\<open>FreeCAD.newDocument\<close> has returned a document,
  \<^verbatim>\<open>FreeCAD.closeDocument\<close> is called before \<^verbatim>\<open>extract_volume\<close> returns, also when an
  unexpected exception is caught at line 63. The code has no \<^verbatim>\<open>finally\<close>: on a document
  that holds a solid and an object with a null shape, reading \<^verbatim>\<open>Volume\<close> raises at line 42,
  line 48 is skipped, and the call returns the error of line 64 with the document
  \<^verbatim>\<open>VolumeExtraction\<close> created and never closed.
\<close>

theorem document_left_open_on_exception:
  "extract_volume (kernel_with [solid 2500, null_shape]) ''part.step'' fresh =
     (Inr [(''error'', PyStr ''Volume extraction failed: Null shape'')],
      \<lparr>sys_path = [],
       trace = [ImportModule ''FreeCAD'', NewDocument ''VolumeExtraction'',
                ImportModule ''Import'', Insert ''part.step'' ''VolumeExtraction'']\<rparr>)"
  by (simp add: run_defs error_result_def)

section \<open>The success shape\<close>

text \<open>
  C2 as stated fails in float arithmetic. A document whose one solid has the smallest
  positive double as its volume passes the test of line 50, since its total is strictly
  positive, and line 54 divides that total by \<^verbatim>\<open>1000.0\<close>: the quotient rounds to \<^verbatim>\<open>0.0\<close>,
  and the call returns the success dict with volume \<^verbatim>\<open>0.0\<close>, which is not strictly
  greater than 0.
\<close>

theorem success_volume_positive_counterexample:
  "is_double (Finite min_subnormal) \<and> gt0 (Finite min_subnormal) \<and>
   fst (extract_volume (kernel_with [solid min_subnormal]) ''part.step'' fresh) =
     Inr [(''volume'', PyFloat (Finite 0)), (''units'', PyStr ''cm3''),
          (''object_count'', PyInt 1), (''success'', PyBool True)] \<and>
   \<not> gt0 (Finite 0)"
  by (simp add: run_defs success_result_def min_subnormal_pos min_subnormal_not_le
                round_double_min_subnormal round_double_underflow)

text \<open>
  C2, amended. Whenever \<^verbatim>\<open>extract_volume\<close> returns a dict whose \<^verbatim>\<open>success\<close> is \<^verbatim>\<open>True\<close>,
  the dict has exactly the four items of the success shape, its \<^verbatim>\<open>object_count\<close> is at
  least 1 and its \<^verbatim>\<open>volume\<close> is not negative and not NaN; the volume is the float
  quotient of the total of the loop by 1000, and it is strictly greater than 0 whenever
  that total is at least 1000 times the smallest positive double.
\<close>

theorem success_invariant:
  assumes "fst (extract_volume k p s) = Inr d"
    and "map_of d ''success'' = Some (PyBool True)"
  shows "\<exists>v n. d = [(''volume'', PyFloat v), (''units'', PyStr ''cm3''),
                    (''object_count'', PyInt n), (''success'', PyBool True)] \<and>
               ge0 v \<and> 1 \<le> n \<and>
               (\<exists>doc objs s1 tot.
                  load_document k p s = (Next (doc, objs), s1) \<and>
                  sum_volumes objs (Finite 0, 0) = Inr (tot, n) \<and>
                  v = div_1000 tot \<and>
                  (at_least (1000 * min_subnormal) tot \<longrightarrow> gt0 v))"
proof (cases k p s rule: extract_volume_cases)
  case (1 m s1)
  with assms(1) have "d = error_result m" by simp
  with assms(2) show ?thesis by (simp add: error_result_def)
next
  case (2 doc objs s1 tot n s2)
  note loop = loop_result [OF 2(2)]
  from loop(3) 2(4) have pos: "gt0 tot" by (rule ge0_not_le0)
  then have "1 \<le> n" by (rule loop(5))
  moreover from loop(3) have "ge0 (div_1000 tot)" by (rule div_1000_nonneg)
  moreover from 2(5) assms(1) have "d = success_result (div_1000 tot) n" by simp
  moreover have "at_least (1000 * min_subnormal) tot \<longrightarrow> gt0 (div_1000 tot)"
    by (simp add: div_1000_pos)
  ultimately show ?thesis using 2(1,2) unfolding success_result_def by blast
qed

text \<open>
  A document with one solid of 2000 cubic millimetres: 2 cubic centimetres, one object.
\<close>

theorem success_invariant_witness:
  "fst (extract_volume (kernel_with [solid 2000]) ''part.step'' fresh)
     = Inr [(''volume'', PyFloat (Finite 2)), (''units'', PyStr ''cm3''),
            (''object_count'', PyInt 1), (''success'', PyBool True)]
   \<and> (\<exists>v n. [(''volume'', PyFloat (Finite 2)), (''units'', PyStr ''cm3''),
              (''object_count'', PyInt 1), (''success'', PyBool True)]
             = [(''volume'', PyFloat v), (''units'', PyStr ''cm3''),
                (''object_count'', PyInt n), (''success'', PyBool True)] \<and>
            ge0 v \<and> 1 \<le> n)"
proof -
  let ?d = "[(''volume'', PyFloat (Finite 2)), (''units'', PyStr ''cm3''),
             (''object_count'', PyInt 1), (''success'', PyBool True)]"
  have run: "fst (extract_volume (kernel_with [solid 2000]) ''part.step'' fresh) = Inr ?d"
    by (simp add: run_defs success_result_def)
  have flag: "map_of ?d ''success'' = Some (PyBool True)"
    by simp
  from success_invariant [OF run flag] run show ?thesis by blast
qed

section \<open>Aggregation\<close>

text \<open>
  C3 as stated fails in two ways. The sum is a float sum: on the solids of 9007199254740992
  (2 to the power 53) and 1 cubic millimetres the addition of line 44 rounds the total
  back to 9007199254740992, and the volume returned is the double 1152921504606847 / 128,
  not the quotient of the exact sum 9007199254740993 by 1000. And line 48 stands between
  the loop and the result: when \<^verbatim>\<open>FreeCAD.closeDocument\<close> raises, a document with one solid
  gets the error of line 64 and no success.
\<close>

theorem volume_is_sum_of_solids_counterexample:
  "is_double (Finite 9007199254740992) \<and> is_double (Finite 1) \<and>
   fst (extract_volume (kernel_with [solid 9007199254740992, solid 1]) ''part.step'' fresh) =
     Inr [(''volume'', PyFloat (Finite (1152921504606847 / 128))), (''units'', PyStr ''cm3''),
          (''object_count'', PyInt 2), (''success'', PyBool True)] \<and>
   (1152921504606847 / 128 :: real) \<noteq> (9007199254740992 + 1) / 1000 \<and>
   fst (extract_volume (kernel_close_fails [solid 1000]) ''part.step'' fresh) =
     Inr [(''error'', PyStr ''Volume extraction failed: close failed'')]"
  by (simp add: run_defs success_result_def error_result_def
                round_double_2_53 round_double_absorb round_double_quotient)

text \<open>
  C3, amended. For every successfully imported document whose objects are solids of
  strictly positive volume (at least one of them) interspersed with objects that lack a
  shape, lack a volume property or have zero volume, all volumes being doubles, and whose
  closing at line 48 returns, \<^verbatim>\<open>extract_volume\<close> returns the success dict with
  \<^verbatim>\<open>object_count\<close> the number \<open>N\<close> of solids and \<^verbatim>\<open>volume\<close> the float quotient by 1000 of
  the float sum of their volumes, added from \<^verbatim>\<open>0.0\<close> in the order of the document; the
  other objects add nothing and cause no error.
\<close>

theorem volume_is_float_sum_of_solids:
  assumes "load_document k p s = (Next (doc, objs), s1)"
    and "\<forall>ob\<in>set objs. volume_is_double ob \<and> (positive_volume ob \<noteq> None \<or> skipped ob)"
    and "\<exists>ob\<in>set objs. positive_volume ob \<noteq> None"
    and "closeDocument k (Name doc) = None"
  shows "fst (extract_volume k p s) =
           Inr [(''volume'', PyFloat (div_1000 (float_sum (solid_volumes objs)))),
                (''units'', PyStr ''cm3''),
                (''object_count'', PyInt (int (length (solid_volumes objs)))),
                (''success'', PyBool True)]"
proof -
  from assms(2) have "\<forall>ob\<in>set objs. positive_volume ob \<noteq> None \<or> skipped ob" by blast
  from sum_volumes_no_raise [OF this] obtain tot n
    where loop: "sum_volumes objs (Finite 0, 0) = Inr (tot, n)" by fastforce
  note r = loop_result [OF loop]
  from assms(3) have "solid_volumes objs \<noteq> []" by (simp add: solid_volumes_empty_iff)
  with assms(2) loop have "gt0 tot" by (intro loop_total_positive) auto
  then have "\<not> le0 tot" by (rule gt0_not_le0)
  with report_volume_Inr [OF loop assms(4), of s1] extract_volume_Next [OF assms(1)] r(1,2)
  show ?thesis by (simp add: success_result_def split: prod.splits)
qed

text \<open>
  Two solids, a datum plane and a surface of zero volume: 3 cubic centimetres, 2 objects.
\<close>

theorem volume_is_float_sum_of_solids_witness:
  "load_document (kernel_with [solid 2000, datum_plane, solid 1000, solid 0]) ''part.step'' fresh
     = (Next (\<lparr>Name = ''VolumeExtraction''\<rparr>, [solid 2000, datum_plane, solid 1000, solid 0]),
        \<lparr>sys_path = [],
         trace = [ImportModule ''FreeCAD'', NewDocument ''VolumeExtraction'',
                  ImportModule ''Import'', Insert ''part.step'' ''VolumeExtraction'']\<rparr>)
   \<and> solid_volumes [solid 2000, datum_plane, solid 1000, solid 0] = [Finite 2000, Finite 1000]
   \<and> float_sum [Finite 2000, Finite 1000] = Finite 3000
   \<and> fst (extract_volume (kernel_with [solid 2000, datum_plane, solid 1000, solid 0])
                          ''part.step'' fresh)
       = Inr [(''volume'', PyFloat (Finite 3)), (''units'', PyStr ''cm3''),
              (''object_count'', PyInt 2), (''success'', PyBool True)]"
proof -
  let ?objs = "[solid 2000, datum_plane, solid 1000, solid 0]"
  have load: "load_document (kernel_with ?objs) ''part.step'' fresh
     = (Next (\<lparr>Name = ''VolumeExtraction''\<rparr>, ?objs),
        \<lparr>sys_path = [],
         trace = [ImportModule ''FreeCAD'', NewDocument ''VolumeExtraction'',
                  ImportModule ''Import'', Insert ''part.step'' ''VolumeExtraction'']\<rparr>)"
    by (simp add: run_defs)
  have kinds: "\<forall>ob\<in>set ?objs. volume_is_double ob \<and> (positive_volume ob \<noteq> None \<or> skipped ob)"
    by (simp add: positive_volume_def skipped_def lacks_shape_def lacks_volume_def
                  zero_volume_def volume_is_double_def solid_def datum_plane_def)
  have some: "\<exists>ob\<in>set ?objs. positive_volume ob \<noteq> None"
    by (simp add: positive_volume_def solid_def)
  have close: "closeDocument (kernel_with ?objs) (Name \<lparr>Name = ''VolumeExtraction''\<rparr>) = None"
    by (simp add: kernel_with_def)
  have vols: "solid_volumes ?objs = [Finite 2000, Finite 1000]"
    by (simp add: solid_volumes_def positive_volume_def solid_def datum_plane_def)
  have total: "float_sum [Finite 2000, Finite 1000] = Finite 3000"
    by (simp add: float_sum_def)
  from volume_is_float_sum_of_solids [OF load kinds some close] load vols total
  show ?thesis by simp
qed

section \<open>One of two shapes\<close>

text \<open>
  C4. For every kernel, path and state, \<^verbatim>\<open>extract_volume\<close> returns (it raises nothing to
  its caller), and the dict it returns has exactly one of two shapes: the four items
  \<^verbatim>\<open>volume\<close>, \<^verbatim>\<open>units\<close> (the string \<^verbatim>\<open>cm3\<close>), \<^verbatim>\<open>object_count\<close> and \<^verbatim>\<open>success\<close> (true), or
  the single item \<^verbatim>\<open>error\<close>; never both, never neither, no other item.
\<close>

theorem extract_volume_one_shape:
  "\<exists>d. fst (extract_volume k p s) = Inr d \<and>
     ((\<exists>v n. d = [(''volume'', PyFloat v), (''units'', PyStr ''cm3''),
                  (''object_count'', PyInt n), (''success'', PyBool True)])
      \<or> (\<exists>m. d = [(''error'', PyStr m)])) \<and>
     \<not> ((\<exists>v n. d = [(''volume'', PyFloat v), (''units'', PyStr ''cm3''),
                     (''object_count'', PyInt n), (''success'', PyBool True)])
        \<and> (\<exists>m. d = [(''error'', PyStr m)]))"
proof (cases k p s rule: extract_volume_cases)
  case (1 m s1)
  then have "fst (extract_volume k p s) = Inr (error_result m)" by simp
  then show ?thesis unfolding error_result_def by auto
next
  case (2 doc objs s1 tot n s2)
  let ?d = "success_result (div_1000 tot) n"
  from 2 have "fst (extract_volume k p s) = Inr ?d" by simp
  moreover have "\<exists>v m. ?d = [(''volume'', PyFloat v), (''units'', PyStr ''cm3''),
                          (''object_count'', PyInt m), (''success'', PyBool True)]"
    unfolding success_result_def by blast
  moreover have "\<not> (\<exists>m. ?d = [(''error'', PyStr m)])"
    by (simp add: success_result_def)
  ultimately show ?thesis by blast
qed

section \<open>No solid geometry\<close>

text \<open>
  C5 as stated fails when the call of line 48 raises: the document is imported, the loop
  ends with the total \<^verbatim>\<open>0.0\<close>, and the exception of \<^verbatim>\<open>FreeCAD.closeDocument\<close> reaches the
  handler of line 63 before line 50 is executed, so the message is that of line 64.
\<close>

theorem no_solid_geometry_error_counterexample:
  "load_document (kernel_close_fails [datum_plane]) ''part.step'' fresh
     = (Next (\<lparr>Name = ''VolumeExtraction''\<rparr>, [datum_plane]),
        \<lparr>sys_path = [],
         trace = [ImportModule ''FreeCAD'', NewDocument ''VolumeExtraction'',
                  ImportModule ''Import'', Insert ''part.step'' ''VolumeExtraction'']\<rparr>)
   \<and> sum_volumes [datum_plane] (Finite 0, 0) = Inr (Finite 0, 0)
   \<and> le0 (Finite 0)
   \<and> fst (extract_volume (kernel_close_fails [datum_plane]) ''part.step'' fresh)
       = Inr [(''error'', PyStr ''Volume extraction failed: close failed'')]"
  by (simp add: run_defs error_result_def)

text \<open>
  C5, amended. For every imported document on which the loop over the objects ends with a
  total that is \<^verbatim>\<open><= 0\<close> and whose closing at line 48 returns, \<^verbatim>\<open>extract_volume\<close> returns the
  error dict whose message is exactly \<^verbatim>\<open>No valid solid objects found in STEP file\<close>, not a
  success dict of volume zero.
\<close>

theorem no_solid_geometry_error:
  assumes "load_document k p s = (Next (doc, objs), s1)"
    and "sum_volumes objs (Finite 0, 0) = Inr (tot, n)"
    and "le0 tot"
    and "closeDocument k (Name doc) = None"
  shows "fst (extract_volume k p s) =
           Inr [(''error'', PyStr ''No valid solid objects found in STEP file'')]"
  using report_volume_Inr [OF assms(2,4), of s1] extract_volume_Next [OF assms(1)] assms(3)
  by (simp add: error_result_def split: prod.splits)

text \<open>
  A document with a datum plane and a surface of zero volume.
\<close>

theorem no_solid_geometry_error_witness:
  "load_document (kernel_with [datum_plane, solid 0]) ''part.step'' fresh
     = (Next (\<lparr>Name = ''VolumeExtraction''\<rparr>, [datum_plane, solid 0]),
        \<lparr>sys_path = [],
         trace = [ImportModule ''FreeCAD'', NewDocument ''VolumeExtraction'',
                  ImportModule ''Import'', Insert ''part.step'' ''VolumeExtraction'']\<rparr>)
   \<and> sum_volumes [datum_plane, solid 0] (Finite 0, 0) = Inr (Finite 0, 0)
   \<and> fst (extract_volume (kernel_with [datum_plane, solid 0]) ''part.step'' fresh)
       = Inr [(''error'', PyStr ''No valid solid objects found in STEP file'')]"
proof -
  let ?objs = "[datum_plane, solid 0]"
  have load: "load_document (kernel_with ?objs) ''part.step'' fresh
     = (Next (\<lparr>Name = ''VolumeExtraction''\<rparr>, ?objs),
        \<lparr>sys_path = [],
         trace = [ImportModule ''FreeCAD'', NewDocument ''VolumeExtraction'',
                  ImportModule ''Import'', Insert ''part.step'' ''VolumeExtraction'']\<rparr>)"
    by (simp add: run_defs)
  have loop: "sum_volumes ?objs (Finite 0, 0) = Inr (Finite 0, 0)"
    by (simp add: run_defs)
  have le: "le0 (Finite 0)" by simp
  have close: "closeDocument (kernel_with ?objs) (Name \<lparr>Name = ''VolumeExtraction''\<rparr>) = None"
    by (simp add: kernel_with_def)
  from no_solid_geometry_error [OF load loop le close] load loop show ?thesis by simp
qed

section \<open>The command line\<close>

text \<open>
  C6. When the number of positional arguments (\<^verbatim>\<open>sys.argv\<close> without the program name) is not
  exactly 1, \<^verbatim>\<open>main\<close> prints the usage error as a JSON object and exits with status 1; the
  state of the process is unchanged: no module of the kernel is imported, no kernel call
  is made.
\<close>

theorem main_usage_error:
  assumes "length (tl argv) \<noteq> 1"
  shows \<open>main os_path_exists k argv s =
           (\<lparr>stdout = [Text ''{"error": "Usage: python3 extract_volume.py <step_file_path>"}''],
             exit_code = 1\<rparr>, s)\<close>
proof -
  from assms have "length argv \<noteq> 2" by (cases argv) auto
  then show ?thesis by (simp add: main_def)
qed

text \<open>
  Two positional arguments, and none.
\<close>

theorem main_usage_error_witness:
  \<open>length (tl [''extract_volume.py'', ''a.step'', ''b.step'']) \<noteq> 1 \<and>
   main only_part_step (kernel_with [solid 2500])
        [''extract_volume.py'', ''a.step'', ''b.step''] fresh =
     (\<lparr>stdout = [Text ''{"error": "Usage: python3 extract_volume.py <step_file_path>"}''],
       exit_code = 1\<rparr>, fresh)
   \<and> length (tl [''extract_volume.py'']) \<noteq> 1 \<and>
   main only_part_step (kernel_with [solid 2500]) [''extract_volume.py''] fresh =
     (\<lparr>stdout = [Text ''{"error": "Usage: python3 extract_volume.py <step_file_path>"}''],
       exit_code = 1\<rparr>, fresh)\<close>
proof -
  have h: "length (tl [''extract_volume.py'', ''a.step'', ''b.step'']) \<noteq> 1" by simp
  have h0: "length (tl [''extract_volume.py'']) \<noteq> 1" by simp
  from h h0 main_usage_error [OF h] main_usage_error [OF h0] show ?thesis by blast
qed

text \<open>
  C7. With exactly one argument, a path that does not exist, \<^verbatim>\<open>main\<close> prints exactly
  \<^verbatim>\<open>{"error": "STEP file not found"}\<close> and exits with status 1; \<^verbatim>\<open>extract_volume\<close> is not
  called and the state of the process is unchanged, so the kernel is never initialised.
\<close>

theorem main_file_not_found:
  assumes "\<not> os_path_exists p"
  shows \<open>main os_path_exists k [prog, p] s =
           (\<lparr>stdout = [Text ''{"error": "STEP file not found"}''], exit_code = 1\<rparr>, s)\<close>
  using assms by (simp add: main_def)

text \<open>
  A path that is not on the file system.
\<close>

theorem main_file_not_found_witness:
  \<open>\<not> only_part_step ''missing.step'' \<and>
   main only_part_step (kernel_with [solid 2500]) [''extract_volume.py'', ''missing.step''] fresh =
     (\<lparr>stdout = [Text ''{"error": "STEP file not found"}''], exit_code = 1\<rparr>, fresh)\<close>
proof -
  have h: "\<not> only_part_step ''missing.step''"
    by (simp add: only_part_step_def)
  from h main_file_not_found [of only_part_step "''missing.step''"] show ?thesis by blast
qed

text \<open>
  C8. With exactly one argument, a path that exists, \<^verbatim>\<open>extract_volume\<close> returns a dict and
  \<^verbatim>\<open>main\<close> prints that dict, serialised by \<^verbatim>\<open>json.dumps\<close>, as the one line of its output
  and exits with status 0, whether the dict is a success or an error. For every argument
  list, the exit status is non-zero exactly for a usage error or a file that is not found.
\<close>

theorem main_prints_result:
  \<open>(os_path_exists p \<longrightarrow>
      (\<exists>d s1. extract_volume k p s = (Inr d, s1) \<and>
         main os_path_exists k [prog, p] s = (\<lparr>stdout = [Json_dumps d], exit_code = 0\<rparr>, s1)))
   \<and> (exit_code (fst (main os_path_exists k argv s)) \<noteq> 0
        \<longleftrightarrow> length (tl argv) \<noteq> 1 \<or> \<not> os_path_exists (argv ! 1))\<close>
proof -
  have run: "\<exists>d s1. extract_volume k q s = (Inr d, s1)" for q
    by (cases k q s rule: extract_volume_cases) blast+
  have printed: "\<exists>d s1. extract_volume k p s = (Inr d, s1) \<and>
         main os_path_exists k [prog, p] s = (\<lparr>stdout = [Json_dumps d], exit_code = 0\<rparr>, s1)"
    if "os_path_exists p"
    using run [of p] that by (auto simp: main_def)
  have "length (tl argv) \<noteq> 1 \<longleftrightarrow> length argv \<noteq> 2" by (cases argv) auto
  with run [of "argv ! 1"]
  have status: "exit_code (fst (main os_path_exists k argv s)) \<noteq> 0
        \<longleftrightarrow> length (tl argv) \<noteq> 1 \<or> \<not> os_path_exists (argv ! 1)"
    by (auto simp: main_def Let_def)
  from printed status show ?thesis by blast
qed

text \<open>
  An existing file with one solid, and one whose document is empty: both exit with 0.
\<close>

theorem main_prints_result_witness:
  \<open>only_part_step ''part.step'' \<and>
   main only_part_step (kernel_with [solid 2000]) [''extract_volume.py'', ''part.step''] fresh =
     (\<lparr>stdout = [Json_dumps [(''volume'', PyFloat (Finite 2)), (''units'', PyStr ''cm3''),
                           (''object_count'', PyInt 1), (''success'', PyBool True)]], exit_code = 0\<rparr>,
      \<lparr>sys_path = [],
       trace = [ImportModule ''FreeCAD'', NewDocument ''VolumeExtraction'',
                ImportModule ''Import'', Insert ''part.step'' ''VolumeExtraction'',
                CloseDocument ''VolumeExtraction'']\<rparr>) \<and>
   main only_part_step (kernel_with []) [''extract_volume.py'', ''part.step''] fresh =
     (\<lparr>stdout = [Json_dumps [(''error'', PyStr ''No valid solid objects found in STEP file'')]],
       exit_code = 0\<rparr>,
      \<lparr>sys_path = [],
       trace = [ImportModule ''FreeCAD'', NewDocument ''VolumeExtraction'',
                ImportModule ''Import'', Insert ''part.step'' ''VolumeExtraction'',
                CloseDocument ''VolumeExtraction'']\<rparr>)\<close>
proof -
  have ex: "only_part_step ''part.step''" by (simp add: only_part_step_def)
  have run1: "extract_volume (kernel_with [solid 2000]) ''part.step'' fresh =
     (Inr [(''volume'', PyFloat (Finite 2)), (''units'', PyStr ''cm3''),
           (''object_count'', PyInt 1), (''success'', PyBool True)],
      \<lparr>sys_path = [],
       trace = [ImportModule ''FreeCAD'', NewDocument ''VolumeExtraction'',
                ImportModule ''Import'', Insert ''part.step'' ''VolumeExtraction'',
                CloseDocument ''VolumeExtraction'']\<rparr>)"
    by (simp add: run_defs success_result_def error_result_def)
  have run2: "extract_volume (kernel_with []) ''part.step'' fresh =
     (Inr [(''error'', PyStr ''No valid solid objects found in STEP file'')],
      \<lparr>sys_path = [],
       trace = [ImportModule ''FreeCAD'', NewDocument ''VolumeExtraction'',
                ImportModule ''Import'', Insert ''part.step'' ''VolumeExtraction'',
                CloseDocument ''VolumeExtraction'']\<rparr>)"
    by (simp add: run_defs success_result_def error_result_def)
  from main_prints_result [of only_part_step "''part.step''" "kernel_with [solid 2000]" fresh "''extract_volume.py''"]
       main_prints_result [of only_part_step "''part.step''" "kernel_with []" fresh "''extract_volume.py''"]
       ex run1 run2
  show ?thesis by auto
qed

section \<open>Repeated invocation\<close>

text \<open>
  A call reads one part of the process state, the module search path, and may extend it
  (lines 19 to 21). What it returns depends on the kernel, the file and that path; the
  calls recorded so far play no part.
\<close>

lemma import_FreeCAD_same:
  assumes "sys_path s1 = sys_path s2"
  shows "fst (import_FreeCAD k s1) = fst (import_FreeCAD k s2) \<and>
         sys_path (snd (import_FreeCAD k s1)) = sys_path (snd (import_FreeCAD k s2))"
  using assms
  by (auto simp: import_FreeCAD_def emit_def Let_def split: option.splits py_exn.splits)

lemma import_step_same:
  assumes "sys_path s1 = sys_path s2"
  shows "fst (import_step k p doc s1) = fst (import_step k p doc s2)"
  using assms
  by (auto simp: import_step_def import_failed_def emit_def Let_def split: option.splits sum.splits)

lemma report_volume_same:
  "fst (report_volume k doc objs s1) = fst (report_volume k doc objs s2)"
  by (simp add: report_volume_def Let_def split: sum.splits prod.splits option.splits)

text \<open>
  What a call returns is decided by the outcome of the import of FreeCAD and, when the
  module is loaded, by the search path it leaves.
\<close>

lemma extract_volume_after_import:
  assumes "import_FreeCAD k s1 = (out, t1)" and "import_FreeCAD k s2 = (out, t2)"
    and "out = Next () \<Longrightarrow> sys_path t1 = sys_path t2"
  shows "fst (extract_volume k p s1) = fst (extract_volume k p s2)"
proof (cases out)
  case (Raise e)
  with assms(1,2) show ?thesis
    by (simp add: extract_volume_def extract_volume_try_def load_document_def)
next
  case (Return d)
  with assms(1,2) show ?thesis
    by (simp add: extract_volume_def extract_volume_try_def load_document_def)
next
  case (Next u)
  with assms(3) have path: "sys_path t1 = sys_path t2" by simp
  show ?thesis
  proof (cases "newDocument k ''VolumeExtraction''")
    case (Inl e)
    with assms(1,2) Next show ?thesis
      by (simp add: extract_volume_def extract_volume_try_def load_document_def)
  next
    case (Inr doc)
    let ?u1 = "emit (NewDocument (Name doc)) t1" and ?u2 = "emit (NewDocument (Name doc)) t2"
    have "sys_path ?u1 = sys_path ?u2" by (simp add: emit_def path)
    from import_step_same [OF this, of k p doc]
    obtain x v1 v2 where st: "import_step k p doc ?u1 = (x, v1)" "import_step k p doc ?u2 = (x, v2)"
      by (cases "import_step k p doc ?u1"; cases "import_step k p doc ?u2") simp
    show ?thesis
    proof (cases x)
      case (Next objs)
      with assms(1,2) \<open>out = Next u\<close> Inr st report_volume_same [of k doc objs v1 v2]
      show ?thesis
        by (cases "report_volume k doc objs v1"; cases "report_volume k doc objs v2")
           (auto simp: extract_volume_def extract_volume_try_def load_document_def Let_def
                 split: sum.splits)
    qed (use assms(1,2) \<open>out = Next u\<close> Inr st in
          \<open>simp_all add: extract_volume_def extract_volume_try_def load_document_def Let_def\<close>)
  qed
qed

lemma extract_volume_same:
  assumes "sys_path s1 = sys_path s2"
  shows "fst (extract_volume k p s1) = fst (extract_volume k p s2)"
proof -
  obtain o1 t1 where r1: "import_FreeCAD k s1 = (o1, t1)" by (cases "import_FreeCAD k s1")
  obtain o2 t2 where r2: "import_FreeCAD k s2 = (o2, t2)" by (cases "import_FreeCAD k s2")
  from import_FreeCAD_same [OF assms, of k] r1 r2
  have "o1 = o2" and "sys_path t1 = sys_path t2" by simp_all
  with r1 r2 show ?thesis by (intro extract_volume_after_import [of k s1 o1 t1 s2 t2]) simp_all
qed

text \<open>The search path a call leaves is the one the import of FreeCAD leaves.\<close>

lemma import_step_sys_path: "sys_path (snd (import_step k p doc s)) = sys_path s"
  by (simp add: import_step_def import_failed_def emit_def Let_def split: option.splits sum.splits)

lemma report_volume_sys_path: "sys_path (snd (report_volume k doc objs s)) = sys_path s"
  by (simp add: report_volume_def emit_def Let_def split: option.splits sum.splits prod.splits)

lemma extract_volume_sys_path:
  "sys_path (snd (extract_volume k p s)) = sys_path (snd (import_FreeCAD k s))"
proof -
  obtain out t where r: "import_FreeCAD k s = (out, t)" by (cases "import_FreeCAD k s")
  show ?thesis
  proof (cases "\<exists>doc. out = Next () \<and> newDocument k ''VolumeExtraction'' = Inr doc")
    case False
    with r show ?thesis
      by (cases out; cases "newDocument k ''VolumeExtraction''")
         (simp_all add: extract_volume_def extract_volume_try_def load_document_def)
  next
    case True
    then obtain doc where out: "out = Next ()" and doc: "newDocument k ''VolumeExtraction'' = Inr doc"
      by blast
    let ?u = "emit (NewDocument (Name doc)) t"
    obtain x v where st: "import_step k p doc ?u = (x, v)" by (cases "import_step k p doc ?u")
    from import_step_sys_path [of k p doc ?u] st have v: "sys_path v = sys_path t"
      by (simp add: emit_def)
    show ?thesis
    proof (cases x)
      case (Next objs)
      obtain y w where rv: "report_volume k doc objs v = (y, w)"
        by (cases "report_volume k doc objs v")
      from report_volume_sys_path [of k doc objs v] rv v have "sys_path w = sys_path t" by simp
      with r out doc st Next rv show ?thesis
        by (cases y)
           (simp_all add: extract_volume_def extract_volume_try_def load_document_def Let_def)
    qed (use r out doc st v in
          \<open>simp_all add: extract_volume_def extract_volume_try_def load_document_def Let_def\<close>)
  qed
qed

text \<open>
  Importing FreeCAD again, from the search path that a first import has left, has the
  outcome of the first import, provided that directories which are already on the path
  can be appended to it without changing what an import does.
\<close>

lemma import_FreeCAD_again:
  assumes "\<forall>m path extra.
             set extra \<subseteq> set path \<longrightarrow> import_module k m (path @ extra) = import_module k m path"
    and "import_FreeCAD k s = (out, t)" and "sys_path s2 = sys_path t"
  shows "fst (import_FreeCAD k s2) = out \<and>
         (out = Next () \<longrightarrow> sys_path (snd (import_FreeCAD k s2)) = sys_path t)"
proof -
  have "set freecad_paths \<subseteq> set (sys_path s @ freecad_paths)" by simp
  with assms(1)
  have again: "import_module k ''FreeCAD'' ((sys_path s @ freecad_paths) @ freecad_paths)
                 = import_module k ''FreeCAD'' (sys_path s @ freecad_paths)"
    by blast
  show ?thesis
  proof (cases "import_module k ''FreeCAD'' (sys_path s)")
    case None
    with assms(2,3) show ?thesis
      by (auto simp: import_FreeCAD_def emit_def Let_def)
  next
    case (Some e)
    show ?thesis
    proof (cases e)
      case (ImportError m)
      with Some assms(2) have t: "sys_path t = sys_path s @ freecad_paths"
        by (auto simp: import_FreeCAD_def emit_def Let_def split: option.splits py_exn.splits)
      from Some ImportError assms(2)
      have out: "out = (case import_module k ''FreeCAD'' (sys_path s @ freecad_paths) of
                          None \<Rightarrow> Next ()
                        | Some (ImportError m') \<Rightarrow>
                            Return (error_result ''FreeCAD not installed or not in PATH'')
                        | Some e' \<Rightarrow> Raise e')"
        by (auto simp: import_FreeCAD_def emit_def Let_def split: option.splits py_exn.splits)
      from assms(3) t again out show ?thesis
        by (auto simp: import_FreeCAD_def emit_def Let_def split: option.splits py_exn.splits)
    next
      case (AttributeError m)
      with Some assms(2,3) show ?thesis
        by (auto simp: import_FreeCAD_def emit_def Let_def)
    next
      case (Exception m)
      with Some assms(2,3) show ?thesis
        by (auto simp: import_FreeCAD_def emit_def Let_def)
    qed
  qed
qed

text \<open>
  C9. With one kernel behaviour, an invocation on a file returns the same result when it
  is repeated in the same process, although the first invocation may have extended
  \<^verbatim>\<open>sys.path\<close>; it returns the same result from every process state with the same search
  path; and \<^verbatim>\<open>main\<close>, run again, prints the same line and exits with the same status. The
  one thing asked of the import system is that appending directories which are already
  on the search path does not change what an import does.
\<close>

theorem repeated_invocation_same_result:
  assumes "\<forall>m path extra.
             set extra \<subseteq> set path \<longrightarrow> import_module k m (path @ extra) = import_module k m path"
  shows "fst (extract_volume k p (snd (extract_volume k p s))) = fst (extract_volume k p s) \<and>
         (sys_path s2 = sys_path s \<longrightarrow> fst (extract_volume k p s2) = fst (extract_volume k p s)) \<and>
         fst (main os_path_exists k argv (snd (main os_path_exists k argv s)))
           = fst (main os_path_exists k argv s)"
proof -
  have seq: "fst (extract_volume k q (snd (extract_volume k q s))) = fst (extract_volume k q s)"
    for q
  proof -
    let ?s' = "snd (extract_volume k q s)"
    obtain out t where r: "import_FreeCAD k s = (out, t)" by (cases "import_FreeCAD k s")
    obtain out' t' where r': "import_FreeCAD k ?s' = (out', t')" by (cases "import_FreeCAD k ?s'")
    from extract_volume_sys_path [of k q s] r have "sys_path ?s' = sys_path t" by simp
    from import_FreeCAD_again [OF assms r this] r'
    have "out' = out" and "out = Next () \<Longrightarrow> sys_path t' = sys_path t" by simp_all
    with r r' show ?thesis
      by (intro extract_volume_after_import [of k ?s' out t' s t]) simp_all
  qed
  have same: "sys_path s2 = sys_path s \<longrightarrow> fst (extract_volume k p s2) = fst (extract_volume k p s)"
    using extract_volume_same [of s2 s k p] by blast
  have "fst (main os_path_exists k argv (snd (main os_path_exists k argv s)))
          = fst (main os_path_exists k argv s)"
  proof (cases "length argv = 2 \<and> os_path_exists (argv ! 1)")
    case False
    then show ?thesis by (auto simp: main_def Let_def)
  next
    case True
    obtain r1 t1 where e1: "extract_volume k (argv ! 1) s = (r1, t1)"
      by (cases "extract_volume k (argv ! 1) s")
    obtain r2 t2 where e2: "extract_volume k (argv ! 1) t1 = (r2, t2)"
      by (cases "extract_volume k (argv ! 1) t1")
    from seq [of "argv ! 1"] e1 e2 have "r2 = r1" by simp
    with True e1 e2 show ?thesis
      by (cases r1) (simp_all add: main_def Let_def)
  qed
  with seq [of p] same show ?thesis by blast
qed

text \<open>
  A kernel that is found only in \<^verbatim>\<open>/usr/lib/freecad/lib\<close>: the first invocation fails to
  import FreeCAD, extends the search path and succeeds; the second finds the module at
  once; both return 2 cubic centimetres.
\<close>

theorem repeated_invocation_same_result_witness:
  "sys_path fresh = [] \<and>
   sys_path (snd (extract_volume (kernel_in_lib [solid 2000]) ''part.step'' fresh)) = freecad_paths \<and>
   fst (extract_volume (kernel_in_lib [solid 2000]) ''part.step'' fresh)
     = Inr [(''volume'', PyFloat (Finite 2)), (''units'', PyStr ''cm3''),
            (''object_count'', PyInt 1), (''success'', PyBool True)] \<and>
   fst (extract_volume (kernel_in_lib [solid 2000]) ''part.step''
          (snd (extract_volume (kernel_in_lib [solid 2000]) ''part.step'' fresh)))
     = Inr [(''volume'', PyFloat (Finite 2)), (''units'', PyStr ''cm3''),
            (''object_count'', PyInt 1), (''success'', PyBool True)]"
proof -
  let ?k = "kernel_in_lib [solid 2000]"
  have stable: "\<forall>m path extra.
      set extra \<subseteq> set path \<longrightarrow> import_module ?k m (path @ extra) = import_module ?k m path"
    by (auto simp: kernel_in_lib_def)
  have run: "extract_volume ?k ''part.step'' fresh =
     (Inr [(''volume'', PyFloat (Finite 2)), (''units'', PyStr ''cm3''),
           (''object_count'', PyInt 1), (''success'', PyBool True)],
      \<lparr>sys_path = freecad_paths,
       trace = [ImportModule ''FreeCAD'', ImportModule ''FreeCAD'',
                NewDocument ''VolumeExtraction'', ImportModule ''Import'',
                Insert ''part.step'' ''VolumeExtraction'', CloseDocument ''VolumeExtraction'']\<rparr>)"
    by (simp add: run_defs success_result_def freecad_paths_def)
  from repeated_invocation_same_result [OF stable, of "''part.step''" fresh] run
  show ?thesis by (simp add: fresh_def)
qed

section \<open>No solid geometry, exactly when nothing contributed\<close>

text \<open>
  C10 as stated, for every successfully imported document, fails where the loop raises
  and where the call of line 48 raises: on a document whose only object has a null shape
  nothing contributed, yet the error is the one of line 64, not the one of line 51; on a
  document with a solid of 1000 cubic millimetres followed by such an object, an object
  with strictly positive volume is present, yet the call returns an error; and on a
  document with that solid alone, the loop ends with a positive total, yet the call
  returns an error when \<^verbatim>\<open>FreeCAD.closeDocument\<close> raises.
\<close>

theorem no_solid_iff_no_contribution_counterexample:
  "solid_volumes [null_shape] = [] \<and>
   fst (load_document (kernel_with [null_shape]) ''part.step'' fresh)
     = Next (\<lparr>Name = ''VolumeExtraction''\<rparr>, [null_shape]) \<and>
   fst (extract_volume (kernel_with [null_shape]) ''part.step'' fresh)
     = Inr [(''error'', PyStr ''Volume extraction failed: Null shape'')] \<and>
   positive_volume (solid 1000) = Some (Finite 1000) \<and>
   fst (load_document (kernel_with [solid 1000, null_shape]) ''part.step'' fresh)
     = Next (\<lparr>Name = ''VolumeExtraction''\<rparr>, [solid 1000, null_shape]) \<and>
   fst (extract_volume (kernel_with [solid 1000, null_shape]) ''part.step'' fresh)
     = Inr [(''error'', PyStr ''Volume extraction failed: Null shape'')] \<and>
   sum_volumes [solid 1000] (Finite 0, 0) = Inr (Finite 1000, 1) \<and>
   fst (load_document (kernel_close_fails [solid 1000]) ''part.step'' fresh)
     = Next (\<lparr>Name = ''VolumeExtraction''\<rparr>, [solid 1000]) \<and>
   fst (extract_volume (kernel_close_fails [solid 1000]) ''part.step'' fresh)
     = Inr [(''error'', PyStr ''Volume extraction failed: close failed'')]"
  by (simp add: run_defs solid_volumes_def positive_volume_def error_result_def)

text \<open>
  C10, amended. For every successfully imported document on which the loop over the
  objects ends without an exception, with total \<open>tot\<close> and count \<open>n\<close>, whose volumes are
  doubles and whose closing at line 48 returns: \<^verbatim>\<open>extract_volume\<close> returns the error
  \<^verbatim>\<open>No valid solid objects found in STEP file\<close> if and only if \<open>n = 0\<close>, that is if and only
  if no object has a shape with strictly positive volume; the total is strictly positive
  exactly when some object has one, and then the call returns the success dict.
\<close>

theorem no_solid_iff_no_contribution:
  assumes "load_document k p s = (Next (doc, objs), s1)"
    and "sum_volumes objs (Finite 0, 0) = Inr (tot, n)"
    and "closeDocument k (Name doc) = None"
    and "\<forall>ob\<in>set objs. volume_is_double ob"
  shows "(fst (extract_volume k p s) =
            Inr [(''error'', PyStr ''No valid solid objects found in STEP file'')] \<longleftrightarrow> n = 0) \<and>
         (n = 0 \<longleftrightarrow> (\<forall>ob\<in>set objs. positive_volume ob = None)) \<and>
         (gt0 tot \<longleftrightarrow> (\<exists>ob\<in>set objs. positive_volume ob \<noteq> None)) \<and>
         ((\<exists>ob\<in>set objs. positive_volume ob \<noteq> None) \<longrightarrow>
            fst (extract_volume k p s) =
              Inr [(''volume'', PyFloat (div_1000 tot)), (''units'', PyStr ''cm3''),
                   (''object_count'', PyInt n), (''success'', PyBool True)])"
proof -
  note r = loop_result [OF assms(2)]
  have n0: "n = 0 \<longleftrightarrow> solid_volumes objs = []" by (simp add: r(2))
  have pos: "gt0 tot \<longleftrightarrow> solid_volumes objs \<noteq> []"
  proof
    assume "gt0 tot"
    from r(5) [OF this] n0 show "solid_volumes objs \<noteq> []" by auto
  next
    assume "solid_volumes objs \<noteq> []"
    with assms(2,4) show "gt0 tot" by (rule loop_total_positive)
  qed
  have le: "le0 tot \<longleftrightarrow> \<not> gt0 tot"
    using r(3) by (cases tot) auto
  have res: "fst (extract_volume k p s) =
               Inr (if le0 tot then error_result ''No valid solid objects found in STEP file''
                    else success_result (div_1000 tot) n)"
    using report_volume_Inr [OF assms(2,3), of s1] extract_volume_Next [OF assms(1)]
    by (simp split: prod.splits)
  from res le pos n0
  have a: "fst (extract_volume k p s) =
             Inr [(''error'', PyStr ''No valid solid objects found in STEP file'')] \<longleftrightarrow> n = 0"
    by (cases "le0 tot") (auto simp: error_result_def success_result_def)
  from n0 have b: "n = 0 \<longleftrightarrow> (\<forall>ob\<in>set objs. positive_volume ob = None)"
    by (simp add: solid_volumes_empty_iff)
  from pos have c: "gt0 tot \<longleftrightarrow> (\<exists>ob\<in>set objs. positive_volume ob \<noteq> None)"
    by (simp add: solid_volumes_empty_iff)
  from res c le have d: "(\<exists>ob\<in>set objs. positive_volume ob \<noteq> None) \<longrightarrow>
            fst (extract_volume k p s) =
              Inr [(''volume'', PyFloat (div_1000 tot)), (''units'', PyStr ''cm3''),
                   (''object_count'', PyInt n), (''success'', PyBool True)]"
    by (auto simp: success_result_def)
  from a b c d show ?thesis by blast
qed

text \<open>
  A surface of zero volume and a solid of 1000 cubic millimetres.
\<close>

theorem no_solid_iff_no_contribution_witness:
  "load_document (kernel_with [solid 0, solid 1000]) ''part.step'' fresh
     = (Next (\<lparr>Name = ''VolumeExtraction''\<rparr>, [solid 0, solid 1000]),
        \<lparr>sys_path = [],
         trace = [ImportModule ''FreeCAD'', NewDocument ''VolumeExtraction'',
                  ImportModule ''Import'', Insert ''part.step'' ''VolumeExtraction'']\<rparr>)
   \<and> sum_volumes [solid 0, solid 1000] (Finite 0, 0) = Inr (Finite 1000, 1)
   \<and> positive_volume (solid 1000) = Some (Finite 1000)
   \<and> fst (extract_volume (kernel_with [solid 0, solid 1000]) ''part.step'' fresh)
       = Inr [(''volume'', PyFloat (Finite 1)), (''units'', PyStr ''cm3''),
              (''object_count'', PyInt 1), (''success'', PyBool True)]
   \<and> fst (extract_volume (kernel_with [solid 0, solid 1000]) ''part.step'' fresh)
       \<noteq> Inr [(''error'', PyStr ''No valid solid objects found in STEP file'')]"
proof -
  let ?objs = "[solid 0, solid 1000]"
  have load: "load_document (kernel_with ?objs) ''part.step'' fresh
     = (Next (\<lparr>Name = ''VolumeExtraction''\<rparr>, ?objs),
        \<lparr>sys_path = [],
         trace = [ImportModule ''FreeCAD'', NewDocument ''VolumeExtraction'',
                  ImportModule ''Import'', Insert ''part.step'' ''VolumeExtraction'']\<rparr>)"
    by (simp add: run_defs)
  have loop: "sum_volumes ?objs (Finite 0, 0) = Inr (Finite 1000, 1)"
    by (simp add: run_defs)
  have close: "closeDocument (kernel_with ?objs) (Name \<lparr>Name = ''VolumeExtraction''\<rparr>) = None"
    by (simp add: kernel_with_def)
  have dbl: "\<forall>ob\<in>set ?objs. volume_is_double ob"
    by (simp add: volume_is_double_def solid_def)
  have p: "positive_volume (solid 1000) = Some (Finite 1000)"
    by (simp add: positive_volume_def solid_def)
  from no_solid_iff_no_contribution [OF load loop close dbl] load loop p show ?thesis by auto
qed

end
